theory Spec2Isabelle
  imports Main
begin

section \<open>React state updates\<close>

text \<open>
  Both components are React function components. A handler reads the props and the state
  of the render it was created in, and queues updates with the setters; React applies the
  queue in order once the handler has returned. A setter called with a value replaces the
  state, a setter called with a function is applied to the result of the updates queued
  before it. Every handler below is a function from the state of the last render to the
  state of the next one; a render happens between any two events.
\<close>

datatype 'a update = SetTo 'a | Updater "'a \<Rightarrow> 'a"

fun apply_update :: "'a \<Rightarrow> 'a update \<Rightarrow> 'a" where
  "apply_update s (SetTo v) = v"
| "apply_update s (Updater f) = f s"

definition flush :: "'a \<Rightarrow> 'a update list \<Rightarrow> 'a" where
  "flush s q = foldl apply_update s q"


section \<open>Textbox overlay (src/src/TextboxOverlay.tsx)\<close>

subsection \<open>Data\<close>

text \<open>
  \<^verbatim>\<open>interface Textbox { id; x; y; text; isEditing }\<close>. Coordinates are JavaScript numbers;
  pointer and scroll coordinates are whole CSS pixels here, so they are integers.
\<close>

record textbox =
  tb_id :: string
  tb_x :: int
  tb_y :: int
  tb_text :: string
  tb_isEditing :: bool

text \<open>\<^verbatim>\<open>useState<{ id; startX; startY } | null>(null)\<close>\<close>

record drag =
  drag_id :: string
  startX :: int
  startY :: int

text \<open>
  The props \<^verbatim>\<open>textboxes\<close>, \<^verbatim>\<open>isTextboxMode\<close>, the state \<^verbatim>\<open>dragState\<close>, the variable
  \<^verbatim>\<open>isTabPressed\<close> of the key-binding effect, and the window listeners of the drag effect.
  The listeners are functions of the render that registered them: they hold the
  \<^verbatim>\<open>textboxes\<close> and the \<^verbatim>\<open>dragState\<close> of that render, and \<open>dragListeners\<close> keeps the two
  (\<open>None\<close> when no listener is registered).
\<close>

record textbox_overlay =
  textboxes :: "textbox list"
  isTextboxMode :: bool
  dragState :: "drag option"
  isTabPressed :: bool
  dragListeners :: "(textbox list \<times> drag) option"

record mouse_event =
  clientX :: int
  clientY :: int

record key_event =
  ev_code :: string
  ev_key :: string
  shiftKey :: bool

text \<open>What a placement click reads from the window: the scroll offsets and \<^verbatim>\<open>Date.now()\<close>.\<close>

record window_env =
  scrollX :: int
  scrollY :: int
  now :: int

subsection \<open>Number to string, for the template literal of the id\<close>

definition digit_char :: "nat \<Rightarrow> char" where
  "digit_char d = ''0123456789'' ! d"

fun digits :: "nat \<Rightarrow> string" where
  "digits n = (if n < 10 then [digit_char n] else digits (n div 10) @ [digit_char (n mod 10)])"

declare digits.simps [simp del]

definition toString :: "int \<Rightarrow> string" where
  "toString n = (if n < 0 then CHR ''-'' # digits (nat (- n)) else digits (nat n))"

subsection \<open>Key bindings\<close>

text \<open>\<^verbatim>\<open>handleKeyDown\<close> and \<^verbatim>\<open>handleKeyUp\<close> of the key-binding effect.\<close>

definition tb_handleKeyDown :: "key_event \<Rightarrow> textbox_overlay \<Rightarrow> textbox_overlay" where
  "tb_handleKeyDown e s =
     (if ev_code e = ''Tab'' then s\<lparr>isTabPressed := True\<rparr>
      else
        let q = (if isTabPressed s \<and> ev_code e = ''KeyT'' then [Updater Not] else []) @
                (if (ev_key e = ''Escape'' \<or> ev_code e = ''Escape'') \<and> isTextboxMode s
                 then [SetTo False] else [])
        in s\<lparr>isTextboxMode := flush (isTextboxMode s) q\<rparr>)"

definition tb_handleKeyUp :: "key_event \<Rightarrow> textbox_overlay \<Rightarrow> textbox_overlay" where
  "tb_handleKeyUp e s = (if ev_code e = ''Tab'' then s\<lparr>isTabPressed := False\<rparr> else s)"

text \<open>
  The render after an event, from the state \<open>s\<close> of the render before it to the state
  \<open>s'\<close> the handler left. The key-binding effect depends on \<^verbatim>\<open>isTextboxMode\<close>: a change of
  the mode runs it again, and \<^verbatim>\<open>let isTabPressed = false\<close> with it.
\<close>

definition tb_after_render :: "textbox_overlay \<Rightarrow> textbox_overlay \<Rightarrow> textbox_overlay" where
  "tb_after_render s s' =
     (if isTextboxMode s' = isTextboxMode s then s' else s'\<lparr>isTabPressed := False\<rparr>)"

subsection \<open>Placement\<close>

definition newTextbox :: "mouse_event \<Rightarrow> window_env \<Rightarrow> textbox" where
  "newTextbox e w =
     \<lparr>tb_id = ''textbox-'' @ toString (now w),
      tb_x = clientX e + scrollX w,
      tb_y = clientY e + scrollY w,
      tb_text = '''',
      tb_isEditing = True\<rparr>"

definition handleOverlayClick ::
  "mouse_event \<Rightarrow> window_env \<Rightarrow> textbox_overlay \<Rightarrow> textbox_overlay" where
  "handleOverlayClick e w s =
     (if \<not> isTextboxMode s then s
      else s\<lparr>textboxes := flush (textboxes s) [Updater (\<lambda>prev. prev @ [newTextbox e w])],
             isTextboxMode := flush (isTextboxMode s) [SetTo False]\<rparr>)"

subsection \<open>Dragging\<close>

text \<open>
  \<^verbatim>\<open>handleMouseMove\<close> as a window listener: \<open>textboxes_r\<close> and \<open>dragState_r\<close> are the
  \<^verbatim>\<open>textboxes\<close> and the \<^verbatim>\<open>dragState\<close> of the render that registered it, \<open>s\<close> is the
  state when the event arrives.
\<close>

definition handleMouseMove ::
  "mouse_event \<Rightarrow> textbox list \<Rightarrow> drag option \<Rightarrow> textbox_overlay \<Rightarrow> textbox_overlay" where
  "handleMouseMove e textboxes_r dragState_r s =
     (case dragState_r of
        None \<Rightarrow> s
      | Some d \<Rightarrow>
          let dx = clientX e - startX d;
              dy = clientY e - startY d
          in s\<lparr>textboxes := flush (textboxes s)
                  [SetTo (map (\<lambda>tb. if tb_id tb = drag_id d
                                     then tb\<lparr>tb_x := tb_x tb + dx, tb_y := tb_y tb + dy\<rparr>
                                     else tb) textboxes_r)],
                dragState := Some (d\<lparr>startX := clientX e, startY := clientY e\<rparr>)\<rparr>)"

definition handleMouseUp :: "textbox_overlay \<Rightarrow> textbox_overlay" where
  "handleMouseUp s = s\<lparr>dragState := None\<rparr>"

text \<open>
  Where a pointer-down inside a box lands. The handler of the box's outer element receives
  it unless it lands on the delete button, whose own handler stops the propagation.
\<close>

datatype box_part = BoxBody | DeleteControl

definition onMouseDown ::
  "box_part \<Rightarrow> textbox \<Rightarrow> mouse_event \<Rightarrow> textbox_overlay \<Rightarrow> textbox_overlay" where
  "onMouseDown part textbox e s =
     (case part of
        DeleteControl \<Rightarrow> s
      | BoxBody \<Rightarrow>
          s\<lparr>dragState := Some \<lparr>drag_id = tb_id textbox, startX = clientX e, startY = clientY e\<rparr>\<rparr>)"

text \<open>
  The effect that depends on \<^verbatim>\<open>dragState\<close>. The three handlers that call \<^verbatim>\<open>setDragState\<close>
  give it a new object or \<^verbatim>\<open>null\<close>, and the render that follows runs the effect: it
  removes the listeners and, when \<^verbatim>\<open>dragState\<close> is set, registers those of this render.
  No other handler changes \<^verbatim>\<open>dragState\<close>, so after any other event the listeners stay the
  ones of an earlier render.
\<close>

definition drag_effect :: "textbox_overlay \<Rightarrow> textbox_overlay" where
  "drag_effect s =
     s\<lparr>dragListeners := (case dragState s of None \<Rightarrow> None | Some d \<Rightarrow> Some (textboxes s, d))\<rparr>"

text \<open>
  The pointer events of a drag, each with the render after it: a pointer-down inside a box,
  and a pointer-move and a pointer-up on the window, which reach the listeners when they are
  registered.
\<close>

definition tb_mousedown ::
  "box_part \<Rightarrow> textbox \<Rightarrow> mouse_event \<Rightarrow> textbox_overlay \<Rightarrow> textbox_overlay" where
  "tb_mousedown part textbox e s =
     (case part of
        DeleteControl \<Rightarrow> onMouseDown part textbox e s
      | BoxBody \<Rightarrow> drag_effect (onMouseDown part textbox e s))"

definition window_mousemove :: "mouse_event \<Rightarrow> textbox_overlay \<Rightarrow> textbox_overlay" where
  "window_mousemove e s =
     (case dragListeners s of
        None \<Rightarrow> s
      | Some r \<Rightarrow> drag_effect (handleMouseMove e (fst r) (Some (snd r)) s))"

definition window_mouseup :: "textbox_overlay \<Rightarrow> textbox_overlay" where
  "window_mouseup s =
     (case dragListeners s of
        None \<Rightarrow> s
      | Some r \<Rightarrow> drag_effect (handleMouseUp s))"

text \<open>One pointer-move after the other.\<close>

fun drag_moves :: "mouse_event list \<Rightarrow> textbox_overlay \<Rightarrow> textbox_overlay" where
  "drag_moves [] s = s"
| "drag_moves (e # es) s = drag_moves es (window_mousemove e s)"

text \<open>The pointer positions reached from \<open>p\<close> by the deltas \<open>ds\<close>, one event each.\<close>

fun pointer_path :: "int \<times> int \<Rightarrow> (int \<times> int) list \<Rightarrow> mouse_event list" where
  "pointer_path p [] = []"
| "pointer_path p (d # ds) =
     \<lparr>clientX = fst p + fst d, clientY = snd p + snd d\<rparr>
       # pointer_path (fst p + fst d, snd p + snd d) ds"

subsection \<open>Editing and deleting\<close>

definition onDoubleClick :: "textbox \<Rightarrow> textbox list \<Rightarrow> textbox list" where
  "onDoubleClick textbox tbs =
     flush tbs [SetTo (map (\<lambda>tb. if tb_id tb = tb_id textbox
                                  then tb\<lparr>tb_isEditing := True\<rparr> else tb) tbs)]"

text \<open>
  \<^verbatim>\<open>handleTextChange\<close> calls \<^verbatim>\<open>setTextboxes\<close> with a value computed from the \<^verbatim>\<open>textboxes\<close>
  of the render; it is the update that the call queues.
\<close>

definition handleTextChange :: "string \<Rightarrow> string \<Rightarrow> textbox list \<Rightarrow> textbox list update" where
  "handleTextChange i v tbs =
     SetTo (map (\<lambda>tb. if tb_id tb = i then tb\<lparr>tb_text := v, tb_isEditing := False\<rparr> else tb) tbs)"

definition onChange :: "textbox \<Rightarrow> string \<Rightarrow> textbox list \<Rightarrow> textbox list" where
  "onChange textbox v tbs =
     flush tbs [SetTo (map (\<lambda>tb. if tb_id tb = tb_id textbox
                                  then tb\<lparr>tb_text := v\<rparr> else tb) tbs)]"

text \<open>
  The element that receives the focus, \<^verbatim>\<open>e.relatedTarget\<close>: the delete button of a box
  (a \<^verbatim>\<open>button\<close> element) or any other element, given by its tag name.
\<close>

datatype focus_target = DeleteButtonOf string | OtherElement string

fun matches_button :: "focus_target \<Rightarrow> bool" where
  "matches_button (DeleteButtonOf i) = True"
| "matches_button (OtherElement tag) = (tag = ''button'')"

text \<open>\<^verbatim>\<open>!e.relatedTarget?.matches('button')\<close>: no related target gives \<^verbatim>\<open>!undefined\<close>.\<close>

definition onBlur :: "textbox \<Rightarrow> focus_target option \<Rightarrow> string \<Rightarrow> textbox list \<Rightarrow> textbox list" where
  "onBlur textbox relatedTarget v tbs =
     (if \<not> (case relatedTarget of None \<Rightarrow> False | Some t \<Rightarrow> matches_button t)
      then flush tbs [handleTextChange (tb_id textbox) v tbs]
      else tbs)"

text \<open>
  The key handler of the text field, with the field's value \<open>v\<close>. The second component
  tells whether \<^verbatim>\<open>e.preventDefault()\<close> was called; when it was not, the browser goes on
  to its own handling of the key.
\<close>

definition onKeyDown ::
  "textbox \<Rightarrow> key_event \<Rightarrow> string \<Rightarrow> textbox list \<Rightarrow> textbox list \<times> bool" where
  "onKeyDown textbox e v tbs =
     (if ev_key e = ''Enter'' \<and> \<not> shiftKey e
      then (flush tbs
              [handleTextChange (tb_id textbox) v tbs,
               SetTo (map (\<lambda>tb. if tb_id tb = tb_id textbox
                                 then tb\<lparr>tb_isEditing := False\<rparr> else tb) tbs)],
            True)
      else (tbs, False))"







subsection \<open>Events\<close>

text \<open>A key event on the window and a click on the placement overlay, each with the render after it.\<close>

definition tb_keydown :: "key_event \<Rightarrow> textbox_overlay \<Rightarrow> textbox_overlay" where
  "tb_keydown e s = tb_after_render s (tb_handleKeyDown e s)"

definition tb_keyup :: "key_event \<Rightarrow> textbox_overlay \<Rightarrow> textbox_overlay" where
  "tb_keyup e s = tb_after_render s (tb_handleKeyUp e s)"

definition tb_click :: "mouse_event \<Rightarrow> window_env \<Rightarrow> textbox_overlay \<Rightarrow> textbox_overlay" where
  "tb_click e w s = tb_after_render s (handleOverlayClick e w s)"

text \<open>
  A change event and the blur of the text field of a box, with the render after them:
  \<^verbatim>\<open>dragState\<close> and the mode are untouched, so no effect runs.
\<close>

definition tb_change :: "textbox \<Rightarrow> string \<Rightarrow> textbox_overlay \<Rightarrow> textbox_overlay" where
  "tb_change textbox v s = s\<lparr>textboxes := onChange textbox v (textboxes s)\<rparr>"

definition tb_blur ::
  "textbox \<Rightarrow> focus_target option \<Rightarrow> string \<Rightarrow> textbox_overlay \<Rightarrow> textbox_overlay" where
  "tb_blur textbox relatedTarget v s = s\<lparr>textboxes := onBlur textbox relatedTarget v (textboxes s)\<rparr>"

subsection \<open>Inputs used in the examples\<close>

definition tabKey :: key_event where
  "tabKey = \<lparr>ev_code = ''Tab'', ev_key = ''Tab'', shiftKey = False\<rparr>"

definition tKey :: key_event where
  "tKey = \<lparr>ev_code = ''KeyT'', ev_key = ''t'', shiftKey = False\<rparr>"

text \<open>The chord that toggles textbox mode: Tab down, T down, Tab up.\<close>

definition toggle_chord :: "textbox_overlay \<Rightarrow> textbox_overlay" where
  "toggle_chord s = tb_keyup tabKey (tb_keydown tKey (tb_keydown tabKey s))"

text \<open>Placement clicks, each after the chord; a click comes with what it reads from the window.\<close>

fun place_all :: "(mouse_event \<times> window_env) list \<Rightarrow> textbox_overlay \<Rightarrow> textbox_overlay" where
  "place_all [] s = s"
| "place_all (c # cs) s = place_all cs (tb_click (fst c) (snd c) (toggle_chord s))"

definition init_overlay :: textbox_overlay where
  "init_overlay =
     \<lparr>textboxes = [], isTextboxMode = False, dragState = None, isTabPressed = False,
      dragListeners = None\<rparr>"

text \<open>
  Two placement clicks that read the same value of the clock, and the collection after them;
  then the blur, to no other element, that ends the editing of the second box.
\<close>

definition twin_clicks :: "(mouse_event \<times> window_env) list" where
  "twin_clicks =
     [(\<lparr>clientX = 120, clientY = 80\<rparr>, \<lparr>scrollX = 0, scrollY = 0, now = 1000\<rparr>),
      (\<lparr>clientX = 300, clientY = 200\<rparr>, \<lparr>scrollX = 0, scrollY = 0, now = 1000\<rparr>)]"

definition twin_overlay :: textbox_overlay where
  "twin_overlay = place_all twin_clicks init_overlay"

definition twin_committed :: textbox_overlay where
  "twin_committed = tb_blur (textboxes twin_overlay ! 1) None '''' twin_overlay"

definition demo_boxes :: "textbox list" where
  "demo_boxes =
     [\<lparr>tb_id = ''textbox-1000'', tb_x = 120, tb_y = 80, tb_text = ''hell'', tb_isEditing = True\<rparr>,
      \<lparr>tb_id = ''textbox-2000'', tb_x = 10, tb_y = 20, tb_text = ''note'', tb_isEditing = False\<rparr>]"

definition demo_overlay :: textbox_overlay where
  "demo_overlay =
     \<lparr>textboxes = demo_boxes, isTextboxMode = False, dragState = None, isTabPressed = False,
      dragListeners = None\<rparr>"


section \<open>Scribble overlay (src/src/ScribbleOverlay.tsx)\<close>

subsection \<open>The drawing surface\<close>

text \<open>
  The 2D context is known by the calls the component makes on it. The calls that build the
  path or touch the bitmap are kept in order; \<open>Stroke\<close> carries the compositing mode, the
  line width and the stroke style it paints with. The properties the component assigns are
  fields. A bitmap is given by its size and the calls that produced it, which is what an
  \<^verbatim>\<open>ImageData\<close> or a copied canvas holds here. Surface coordinates are whole pixels.
\<close>

datatype call =
    BeginPath
  | MoveTo int int
  | LineTo int int
  | Stroke string int string
  | ClosePath
  | ClearRect nat nat
  | Scale nat nat
  | DrawImage nat nat "call list"
  | PutImageData nat nat "call list"

type_synonym image_data = "nat \<times> nat \<times> call list"

record context2d =
  globalCompositeOperation :: string
  lineWidth :: int
  strokeStyle :: string
  lineCap :: string
  lineJoin :: string
  calls :: "call list"

text \<open>\<^verbatim>\<open>canvas.getContext('2d')\<close> is \<open>ctx2d\<close>: the context, or \<^verbatim>\<open>null\<close>.\<close>

record canvas =
  cv_width :: nat
  cv_height :: nat
  ctx2d :: "context2d option"

datatype dom_error = IndexSizeError | InvalidStateError

text \<open>The state of the component: props, \<^verbatim>\<open>useState\<close> values and refs.\<close>

record scribble =
  isScribbleMode :: bool
  isDrawing :: bool
  isEraser :: bool
  isSpaceHeld :: bool
  backgroundState :: bool
  strokeColor :: string
  displayIntroText :: bool
  isMouseDown :: bool
  didDrawInStroke :: bool
  lastDrawnState :: "image_data option"
  canvasRef :: "canvas option"
  sc_isTabPressed :: bool

text \<open>\<^verbatim>\<open>canvas.getBoundingClientRect()\<close> at the time of a pointer event.\<close>

record client_rect =
  rect_left :: int
  rect_top :: int

text \<open>\<^verbatim>\<open>if (ctx) { ... }\<close>\<close>

definition with_ctx :: "(context2d \<Rightarrow> context2d) \<Rightarrow> canvas \<Rightarrow> canvas" where
  "with_ctx f c = (case ctx2d c of None \<Rightarrow> c | Some ctx \<Rightarrow> c\<lparr>ctx2d := Some (f ctx)\<rparr>)"

text \<open>\<^verbatim>\<open>ctx.getImageData(0, 0, canvas.width, canvas.height)\<close> throws on an empty rectangle.\<close>

definition getImageData :: "canvas \<Rightarrow> context2d \<Rightarrow> dom_error + image_data" where
  "getImageData c ctx =
     (if cv_width c = 0 \<or> cv_height c = 0 then Inl IndexSizeError
      else Inr (cv_width c, cv_height c, calls ctx))"

definition saveCanvasState :: "scribble \<Rightarrow> dom_error + scribble" where
  "saveCanvasState s =
     (case canvasRef s of
        None \<Rightarrow> Inr s
      | Some c \<Rightarrow>
          (case ctx2d c of
             None \<Rightarrow> Inr s
           | Some ctx \<Rightarrow>
               (case getImageData c ctx of
                  Inl err \<Rightarrow> Inl err
                | Inr img \<Rightarrow> Inr (s\<lparr>lastDrawnState := Some img\<rparr>))))"

subsection \<open>Effects\<close>

text \<open>\<^verbatim>\<open>// Save canvas state after each stroke\<close>, the effect that depends on \<^verbatim>\<open>isDrawing\<close>.\<close>

definition save_effect :: "scribble \<Rightarrow> dom_error + scribble" where
  "save_effect s =
     (if \<not> isDrawing s \<and> didDrawInStroke s
      then (case saveCanvasState s of
              Inl err \<Rightarrow> Inl err
            | Inr s' \<Rightarrow> Inr (s'\<lparr>didDrawInStroke := False\<rparr>))
      else Inr s)"

text \<open>
  The render after an event, from the state \<open>s\<close> of the render before it to the state
  \<open>s'\<close> the handlers left: an effect runs when one of its dependencies changed. The
  key-binding effect depends on \<^verbatim>\<open>isScribbleMode\<close> and starts with
  \<^verbatim>\<open>let isTabPressed = false\<close>; the save effect depends on \<^verbatim>\<open>isDrawing\<close>.
\<close>

definition after_render :: "scribble \<Rightarrow> scribble \<Rightarrow> dom_error + scribble" where
  "after_render s s' =
     (let s1 = (if isScribbleMode s' = isScribbleMode s then s'
                else s'\<lparr>sc_isTabPressed := False\<rparr>)
      in if isDrawing s' = isDrawing s then Inr s1 else save_effect s1)"

subsection \<open>Resizing\<close>

text \<open>
  What \<^verbatim>\<open>updateCanvasSize\<close> reads: the device pixel ratio (\<open>0\<close> when it is missing), the
  parent container (its three heights and its width) if there is one, the three heights of
  the document element, and whether the scratch canvas gave a 2D context. The ratio is a
  whole number here (1, 2, 3): its products with the whole sizes are then the same in the
  source's double arithmetic as in \<open>nat\<close>, for sizes a canvas can have. A display with a
  fractional ratio is not covered.
\<close>

record parent_box =
  p_scrollHeight :: nat
  p_offsetHeight :: nat
  p_clientHeight :: nat
  p_offsetWidth :: nat

record layout =
  devicePixelRatio :: nat
  parentElement :: "parent_box option"
  doc_scrollHeight :: nat
  doc_offsetHeight :: nat
  doc_clientHeight :: nat
  tempCtx_available :: bool

text \<open>
  Assigning \<^verbatim>\<open>canvas.width\<close> or \<^verbatim>\<open>canvas.height\<close> clears the bitmap and resets the context
  to its defaults.
\<close>

definition default_context :: context2d where
  "default_context =
     \<lparr>globalCompositeOperation = ''source-over'', lineWidth = 1, strokeStyle = ''#000000'',
      lineCap = ''butt'', lineJoin = ''miter'', calls = []\<rparr>"

definition set_size :: "nat \<Rightarrow> nat \<Rightarrow> canvas \<Rightarrow> canvas" where
  "set_size w h c =
     \<lparr>cv_width = w, cv_height = h,
      ctx2d = (case ctx2d c of None \<Rightarrow> None | Some ctx \<Rightarrow> Some default_context)\<rparr>"

text \<open>\<^verbatim>\<open>drawImage\<close> of a canvas without width or height throws.\<close>

definition drawImage :: "image_data \<Rightarrow> context2d \<Rightarrow> dom_error + context2d" where
  "drawImage img ctx =
     (case img of (w, h, cs) \<Rightarrow>
        if w = 0 \<or> h = 0 then Inl InvalidStateError
        else Inr (ctx\<lparr>calls := calls ctx @ [DrawImage w h cs]\<rparr>))"

definition default_style :: "string \<Rightarrow> context2d \<Rightarrow> context2d" where
  "default_style color ctx =
     ctx\<lparr>strokeStyle := color, lineWidth := 2, lineCap := ''round'', lineJoin := ''round''\<rparr>"

definition updateCanvasSize :: "layout \<Rightarrow> scribble \<Rightarrow> dom_error + scribble" where
  "updateCanvasSize env s =
     (case canvasRef s of
        None \<Rightarrow> Inr s
      | Some canvas \<Rightarrow>
     (case ctx2d canvas of
        None \<Rightarrow> Inr s
      | Some ctx0 \<Rightarrow>
     (let dpr = (if devicePixelRatio env = 0 then 1 else devicePixelRatio env) in
      case parentElement env of
        None \<Rightarrow> Inr s
      | Some parentContainer \<Rightarrow>
     (let maxHeight = Max {p_scrollHeight parentContainer, p_offsetHeight parentContainer,
                           p_clientHeight parentContainer, doc_scrollHeight env,
                           doc_offsetHeight env, doc_clientHeight env};
          width = p_offsetWidth parentContainer;
          height = maxHeight
      in if cv_width canvas = width * dpr \<and> cv_height canvas = height * dpr
         then Inr s
         else
           let currentState = lastDrawnState s;
               temp = (if tempCtx_available env
                       then (if cv_width canvas = 0 \<or> cv_height canvas = 0
                             then Inl InvalidStateError
                             else Inr (Some (cv_width canvas, cv_height canvas, calls ctx0)))
                       else Inr None)
           in case temp of
                Inl err \<Rightarrow> Inl err
              | Inr tempCanvas \<Rightarrow>
                  let resized = set_size (width * dpr) (height * dpr) canvas;
                      ctx = default_context\<lparr>calls := [Scale dpr dpr]\<rparr>
                  in (case tempCanvas of
                        Some img \<Rightarrow>
                          (case drawImage img ctx of
                             Inl err \<Rightarrow> Inl err
                           | Inr ctx' \<Rightarrow>
                               (case saveCanvasState (s\<lparr>canvasRef := Some (resized\<lparr>ctx2d := Some ctx'\<rparr>)\<rparr>) of
                                  Inl err \<Rightarrow> Inl err
                                | Inr s' \<Rightarrow>
                                    Inr (s'\<lparr>canvasRef := Some (resized
                                           \<lparr>ctx2d := Some (default_style (strokeColor s) ctx')\<rparr>)\<rparr>)))
                      | None \<Rightarrow>
                          (case currentState of
                             Some (w, h, cs) \<Rightarrow>
                               Inr (s\<lparr>canvasRef := Some (resized
                                      \<lparr>ctx2d := Some (default_style (strokeColor s)
                                          (ctx\<lparr>calls := calls ctx @ [PutImageData w h cs]\<rparr>))\<rparr>)\<rparr>)
                           | None \<Rightarrow>
                               Inr (s\<lparr>canvasRef := Some (resized
                                      \<lparr>ctx2d := Some (default_style (strokeColor s) ctx)\<rparr>)\<rparr>)))))))"

subsection \<open>Strokes\<close>

definition stopDrawing :: "scribble \<Rightarrow> scribble" where
  "stopDrawing s =
     (if \<not> isDrawing s then s
      else case canvasRef s of
             None \<Rightarrow> s
           | Some canvas \<Rightarrow>
               s\<lparr>canvasRef := Some (with_ctx
                     (\<lambda>ctx. ctx\<lparr>calls := calls ctx @ [ClosePath],
                                globalCompositeOperation := ''source-over''\<rparr>) canvas),
                 isDrawing := False,
                 isMouseDown := False,
                 didDrawInStroke := False\<rparr>)"

definition startDrawing :: "mouse_event \<Rightarrow> client_rect \<Rightarrow> scribble \<Rightarrow> scribble" where
  "startDrawing e rect s =
     (if \<not> isScribbleMode s then s
      else case canvasRef s of
             None \<Rightarrow> s
           | Some canvas \<Rightarrow>
               let x = clientX e - rect_left rect;
                   y = clientY e - rect_top rect
               in s\<lparr>displayIntroText := False,
                     isDrawing := True,
                     isMouseDown := True,
                     didDrawInStroke := False,
                     canvasRef := Some (with_ctx
                       (\<lambda>ctx. if isEraser s
                               then ctx\<lparr>calls := calls ctx @ [BeginPath, MoveTo x y],
                                        globalCompositeOperation := ''destination-out'',
                                        lineWidth := 20\<rparr>
                               else ctx\<lparr>calls := calls ctx @ [BeginPath, MoveTo x y],
                                        globalCompositeOperation := ''source-over'',
                                        lineWidth := 2,
                                        strokeStyle := strokeColor s\<rparr>) canvas)\<rparr>)"

definition draw :: "mouse_event \<Rightarrow> client_rect \<Rightarrow> scribble \<Rightarrow> scribble" where
  "draw e rect s =
     (if \<not> isScribbleMode s then s
      else case canvasRef s of
             None \<Rightarrow> s
           | Some canvas \<Rightarrow>
               let x = clientX e - rect_left rect;
                   y = clientY e - rect_top rect;
                   shouldStartStroke = ((isSpaceHeld s \<or> isMouseDown s) \<and> \<not> isDrawing s)
               in if shouldStartStroke then startDrawing e rect s
                  else if isDrawing s \<and> (isSpaceHeld s \<or> isMouseDown s)
                  then (case ctx2d canvas of
                          None \<Rightarrow> s
                        | Some ctx \<Rightarrow>
                            s\<lparr>canvasRef := Some (canvas\<lparr>ctx2d := Some
                                  (ctx\<lparr>calls := calls ctx @
                                         [LineTo x y,
                                          Stroke (globalCompositeOperation ctx) (lineWidth ctx)
                                            (strokeStyle ctx)]\<rparr>)\<rparr>),
                              didDrawInStroke := True\<rparr>)
                  else s)"

definition clearCanvas :: "scribble \<Rightarrow> scribble" where
  "clearCanvas s =
     (case canvasRef s of
        None \<Rightarrow> s
      | Some canvas \<Rightarrow>
          (case ctx2d canvas of
             None \<Rightarrow> s
           | Some ctx \<Rightarrow>
               s\<lparr>canvasRef := Some (canvas\<lparr>ctx2d := Some
                     (ctx\<lparr>calls := calls ctx @ [ClearRect (cv_width canvas) (cv_height canvas)]\<rparr>)\<rparr>)\<rparr>))"

subsection \<open>Keys\<close>

text \<open>The handlers of the effect for the space bar and the E key.\<close>

definition tool_handleKeyDown :: "key_event \<Rightarrow> scribble \<Rightarrow> scribble" where
  "tool_handleKeyDown e s =
     (let s1 = (if ev_code e = ''Space'' \<and> isScribbleMode s
                then s\<lparr>isSpaceHeld := True, isEraser := False\<rparr> else s)
      in if ev_code e = ''KeyE'' \<and> isScribbleMode s
         then s1\<lparr>isEraser := True, isSpaceHeld := True\<rparr> else s1)"

definition tool_handleKeyUp :: "key_event \<Rightarrow> scribble \<Rightarrow> scribble" where
  "tool_handleKeyUp e s =
     (let s1 = (if ev_code e = ''Space'' \<and> isScribbleMode s
                then stopDrawing (s\<lparr>isEraser := backgroundState s, isSpaceHeld := False\<rparr>)
                else s)
      in if ev_code e = ''KeyE'' \<and> isScribbleMode s
         then stopDrawing (s1\<lparr>isEraser := backgroundState s, isSpaceHeld := False\<rparr>)
         else s1)"

text \<open>The handlers of the key-binding effect: Tab with S toggles, Escape leaves.\<close>

definition sc_handleKeyDown :: "key_event \<Rightarrow> scribble \<Rightarrow> scribble" where
  "sc_handleKeyDown e s =
     (if ev_code e = ''Tab'' then s\<lparr>sc_isTabPressed := True\<rparr>
      else
        let q = (if sc_isTabPressed s \<and> ev_code e = ''KeyS'' then [Updater Not] else []) @
                (if (ev_key e = ''Escape'' \<or> ev_code e = ''Escape'') \<and> isScribbleMode s
                 then [SetTo False] else [])
        in s\<lparr>isScribbleMode := flush (isScribbleMode s) q\<rparr>)"

definition sc_handleKeyUp :: "key_event \<Rightarrow> scribble \<Rightarrow> scribble" where
  "sc_handleKeyUp e s = (if ev_code e = ''Tab'' then s\<lparr>sc_isTabPressed := False\<rparr> else s)"

subsection \<open>Events\<close>

datatype pointer_event =
    MouseDown mouse_event client_rect
  | MouseMove mouse_event client_rect
  | MouseUp
  | MouseOut

text \<open>
  The handlers of the canvas element: \<^verbatim>\<open>onMouseDown={startDrawing}\<close>, \<^verbatim>\<open>onMouseMove={draw}\<close>,
  \<^verbatim>\<open>onMouseUp={stopDrawing}\<close>, \<^verbatim>\<open>onMouseOut={stopDrawing}\<close>. They are bound whatever the mode
  is; \<^verbatim>\<open>startDrawing\<close> and \<^verbatim>\<open>draw\<close> test the mode themselves, \<^verbatim>\<open>stopDrawing\<close> does not. The
  style \<^verbatim>\<open>pointerEvents: isScribbleMode ? 'auto' : 'none'\<close> lets the pointer through the
  canvas while the mode is off, and the pointer-out that the browser sends when the canvas
  under the pointer stops being its target still reaches \<^verbatim>\<open>stopDrawing\<close>.
\<close>

definition canvas_handler :: "pointer_event \<Rightarrow> scribble \<Rightarrow> scribble" where
  "canvas_handler ev s =
     (case ev of
        MouseDown e rect \<Rightarrow> startDrawing e rect s
      | MouseMove e rect \<Rightarrow> draw e rect s
      | MouseUp \<Rightarrow> stopDrawing s
      | MouseOut \<Rightarrow> stopDrawing s)"

text \<open>
  The events that set state, each followed by a render: a pointer event on the canvas, a
  key event on the window (both key effects listen), a click on the pencil, eraser or clear
  button (rendered while scribble mode is on). A resize or scroll of the window runs
  \<^verbatim>\<open>updateCanvasSize\<close>, which writes the canvas and the snapshot and sets no state, so no
  render follows it.
\<close>

datatype action =
    Pointer pointer_event
  | KeyDown key_event
  | KeyUp key_event
  | ClickPencil
  | ClickEraser
  | ClickClear

fun handle :: "action \<Rightarrow> scribble \<Rightarrow> dom_error + scribble" where
  "handle (Pointer ev) s = Inr (canvas_handler ev s)"
| "handle (KeyDown e) s = Inr (sc_handleKeyDown e (tool_handleKeyDown e s))"
| "handle (KeyUp e) s = Inr (sc_handleKeyUp e (tool_handleKeyUp e s))"
| "handle ClickPencil s =
     Inr (if isScribbleMode s then s\<lparr>isEraser := False, backgroundState := False\<rparr> else s)"
| "handle ClickEraser s =
     Inr (if isScribbleMode s then s\<lparr>isEraser := True, backgroundState := True\<rparr> else s)"
| "handle ClickClear s = Inr (if isScribbleMode s then clearCanvas s else s)"

definition step :: "action \<Rightarrow> scribble \<Rightarrow> dom_error + scribble" where
  "step a s = (case handle a s of Inl err \<Rightarrow> Inl err | Inr s' \<Rightarrow> after_render s s')"

fun run :: "action list \<Rightarrow> scribble \<Rightarrow> dom_error + scribble" where
  "run [] s = Inr s"
| "run (a # as) s = (case step a s of Inl err \<Rightarrow> Inl err | Inr s' \<Rightarrow> run as s')"

subsection \<open>Reading the surface\<close>

definition ctx_of :: "scribble \<Rightarrow> context2d option" where
  "ctx_of s = (case canvasRef s of None \<Rightarrow> None | Some c \<Rightarrow> ctx2d c)"

definition ctx_calls :: "scribble \<Rightarrow> call list" where
  "ctx_calls s = (case ctx_of s of None \<Rightarrow> [] | Some ctx \<Rightarrow> calls ctx)"

text \<open>
  The paths that were painted: a path starts at \<open>BeginPath\<close>, and it counts once however
  many times it is painted while it grows.
\<close>

fun paths_painted :: "bool \<Rightarrow> call list \<Rightarrow> nat" where
  "paths_painted p [] = 0"
| "paths_painted p (BeginPath # cs) = paths_painted False cs"
| "paths_painted p (Stroke m w c # cs) = (if p then 0 else 1) + paths_painted True cs"
| "paths_painted p (x # cs) = paths_painted p cs"

definition strokes_drawn :: "call list \<Rightarrow> nat" where
  "strokes_drawn cs = paths_painted False cs"

definition paths_begun :: "call list \<Rightarrow> nat" where
  "paths_begun cs = length (filter (\<lambda>c. c = BeginPath) cs)"

text \<open>
  A gesture: pointer-moves with no button held, a pointer-down, the pointer-moves of the
  drag, a pointer-up.
\<close>

type_synonym pointer_at = "mouse_event \<times> client_rect"

type_synonym gesture = "pointer_at list \<times> pointer_at \<times> pointer_at list"

definition gesture_events :: "gesture \<Rightarrow> action list" where
  "gesture_events g =
     (case g of (hover, down, moves) \<Rightarrow>
        map (\<lambda>p. Pointer (MouseMove (fst p) (snd p))) hover
        @ [Pointer (MouseDown (fst down) (snd down))]
        @ map (\<lambda>p. Pointer (MouseMove (fst p) (snd p))) moves
        @ [Pointer MouseUp])"

text \<open>The calls that the pointer-moves of a drag add: a line and its painting for each.\<close>

fun drag_calls :: "string \<Rightarrow> int \<Rightarrow> string \<Rightarrow> pointer_at list \<Rightarrow> call list" where
  "drag_calls m w c [] = []"
| "drag_calls m w c (p # ps) =
     LineTo (clientX (fst p) - rect_left (snd p)) (clientY (fst p) - rect_top (snd p))
       # Stroke m w c # drag_calls m w c ps"

subsection \<open>Inputs used in the examples\<close>

text \<open>
  The component before its first effect runs: the initial values of its state and refs, a
  canvas of the default size 300 by 150 with nothing on it, scribble mode off.
\<close>

definition fresh_scribble :: scribble where
  "fresh_scribble =
     \<lparr>isScribbleMode = False, isDrawing = False, isEraser = False, isSpaceHeld = False,
      backgroundState = False, strokeColor = ''#5A5A5A'', displayIntroText = True,
      isMouseDown = False, didDrawInStroke = False, lastDrawnState = None,
      canvasRef = Some \<lparr>cv_width = 300, cv_height = 150, ctx2d = Some default_context\<rparr>,
      sc_isTabPressed = False\<rparr>"

text \<open>A container 800 wide and 600 high at device pixel ratio 1.\<close>

definition demo_layout :: layout where
  "demo_layout =
     \<lparr>devicePixelRatio = 1,
      parentElement = Some \<lparr>p_scrollHeight = 600, p_offsetHeight = 600, p_clientHeight = 600,
                             p_offsetWidth = 800\<rparr>,
      doc_scrollHeight = 600, doc_offsetHeight = 600, doc_clientHeight = 600,
      tempCtx_available = True\<rparr>"

text \<open>
  The component after its first sizing in that container and the chord that turns
  scribble mode on.
\<close>

definition demo_scribble :: scribble where
  "demo_scribble =
     \<lparr>isScribbleMode = True, isDrawing = False, isEraser = False, isSpaceHeld = False,
      backgroundState = False, strokeColor = ''#5A5A5A'', displayIntroText = True,
      isMouseDown = False, didDrawInStroke = False,
      lastDrawnState = Some (800, 600, [Scale 1 1, DrawImage 300 150 []]),
      canvasRef = Some \<lparr>cv_width = 800, cv_height = 600,
        ctx2d = Some \<lparr>globalCompositeOperation = ''source-over'', lineWidth = 2,
          strokeStyle = ''#5A5A5A'', lineCap = ''round'', lineJoin = ''round'',
          calls = [Scale 1 1, DrawImage 300 150 []]\<rparr>\<rparr>,
      sc_isTabPressed = False\<rparr>"

text \<open>The component in the middle of an eraser stroke, one pointer-move after pointer-down.\<close>

definition mid_stroke :: scribble where
  "mid_stroke =
     \<lparr>isScribbleMode = True, isDrawing = True, isEraser = True, isSpaceHeld = False,
      backgroundState = True, strokeColor = ''#5A5A5A'', displayIntroText = False,
      isMouseDown = True, didDrawInStroke = True,
      lastDrawnState = Some (800, 600, [Scale 1 1, DrawImage 300 150 []]),
      canvasRef = Some \<lparr>cv_width = 800, cv_height = 600,
        ctx2d = Some \<lparr>globalCompositeOperation = ''destination-out'', lineWidth = 20,
          strokeStyle = ''#5A5A5A'', lineCap = ''round'', lineJoin = ''round'',
          calls = [Scale 1 1, DrawImage 300 150 [], BeginPath, MoveTo 10 10, LineTo 20 20,
                   Stroke ''destination-out'' 20 ''#5A5A5A'']\<rparr>\<rparr>,
      sc_isTabPressed = False\<rparr>"

definition ptr :: "int \<Rightarrow> int \<Rightarrow> pointer_at" where
  "ptr px py = (\<lparr>clientX = px, clientY = py\<rparr>, \<lparr>rect_left = 0, rect_top = 0\<rparr>)"

definition key :: "string \<Rightarrow> key_event" where
  "key c = \<lparr>ev_code = c, ev_key = c, shiftKey = False\<rparr>"


section \<open>Properties of the textbox overlay\<close>

lemma flush_simps [simp]:
  "flush s [] = s"
  "flush s (u # q) = flush (apply_update s u) q"
  by (simp_all add: flush_def)

subsection \<open>Helper lemmas\<close>

lemma distinct_ids_nth:
  "distinct (map tb_id tbs) \<Longrightarrow> j < length tbs \<Longrightarrow> k < length tbs \<Longrightarrow>
   tb_id (tbs ! j) = tb_id (tbs ! k) \<Longrightarrow> j = k"
proof -
  assume d: "distinct (map tb_id tbs)" and j: "j < length tbs" and k: "k < length tbs"
    and eq: "tb_id (tbs ! j) = tb_id (tbs ! k)"
  from j k eq have "map tb_id tbs ! j = map tb_id tbs ! k" by simp
  with d j k show "j = k" by (metis nth_eq_iff_index_eq length_map)
qed


text \<open>
  While a drag goes on, every pointer-move sets \<^verbatim>\<open>dragState\<close>, so the listeners are always
  those of the last render.
\<close>

lemma window_mousemove_registered:
  "dragListeners s = Some (textboxes s, d) \<Longrightarrow>
   window_mousemove e s =
     s\<lparr>textboxes := map (\<lambda>tb. if tb_id tb = drag_id d
                               then tb\<lparr>tb_x := tb_x tb + (clientX e - startX d),
                                       tb_y := tb_y tb + (clientY e - startY d)\<rparr>
                               else tb) (textboxes s),
       dragState := Some (d\<lparr>startX := clientX e, startY := clientY e\<rparr>),
       dragListeners := Some
         (map (\<lambda>tb. if tb_id tb = drag_id d
                     then tb\<lparr>tb_x := tb_x tb + (clientX e - startX d),
                             tb_y := tb_y tb + (clientY e - startY d)\<rparr>
                     else tb) (textboxes s),
          d\<lparr>startX := clientX e, startY := clientY e\<rparr>)\<rparr>"
  by (simp add: window_mousemove_def handleMouseMove_def drag_effect_def Let_def)

lemma drag_moves_path:
  "dragListeners s = Some (textboxes s, d) \<Longrightarrow> dragState s = Some d \<Longrightarrow>
   drag_moves (pointer_path (startX d, startY d) ds) s =
     s\<lparr>textboxes := map (\<lambda>tb. if tb_id tb = drag_id d
                               then tb\<lparr>tb_x := tb_x tb + sum_list (map fst ds),
                                       tb_y := tb_y tb + sum_list (map snd ds)\<rparr>
                               else tb) (textboxes s),
       dragState := Some (d\<lparr>startX := startX d + sum_list (map fst ds),
                            startY := startY d + sum_list (map snd ds)\<rparr>),
       dragListeners := Some
         (map (\<lambda>tb. if tb_id tb = drag_id d
                     then tb\<lparr>tb_x := tb_x tb + sum_list (map fst ds),
                             tb_y := tb_y tb + sum_list (map snd ds)\<rparr>
                     else tb) (textboxes s),
          d\<lparr>startX := startX d + sum_list (map fst ds),
            startY := startY d + sum_list (map snd ds)\<rparr>)\<rparr>"
proof (induction ds arbitrary: s d)
  case Nil
  then show ?case by (cases s) (simp add: map_idI)
next
  case (Cons a ds)
  let ?e = "\<lparr>clientX = startX d + fst a, clientY = startY d + snd a\<rparr>"
  let ?d' = "d\<lparr>startX := startX d + fst a, startY := startY d + snd a\<rparr>"
  let ?s1 = "window_mousemove ?e s"
  have s1: "dragListeners ?s1 = Some (textboxes ?s1, ?d')" "dragState ?s1 = Some ?d'"
    using Cons.prems(1) by (simp_all add: window_mousemove_registered)
  have "drag_moves (pointer_path (startX d, startY d) (a # ds)) s =
        drag_moves (pointer_path (startX ?d', startY ?d') ds) ?s1"
    by simp
  also have "\<dots> = ?s1
     \<lparr>textboxes := map (\<lambda>tb. if tb_id tb = drag_id ?d'
                               then tb\<lparr>tb_x := tb_x tb + sum_list (map fst ds),
                                       tb_y := tb_y tb + sum_list (map snd ds)\<rparr>
                               else tb) (textboxes ?s1),
       dragState := Some (?d'\<lparr>startX := startX ?d' + sum_list (map fst ds),
                            startY := startY ?d' + sum_list (map snd ds)\<rparr>),
       dragListeners := Some
         (map (\<lambda>tb. if tb_id tb = drag_id ?d'
                     then tb\<lparr>tb_x := tb_x tb + sum_list (map fst ds),
                             tb_y := tb_y tb + sum_list (map snd ds)\<rparr>
                     else tb) (textboxes ?s1),
          ?d'\<lparr>startX := startX ?d' + sum_list (map fst ds),
              startY := startY ?d' + sum_list (map snd ds)\<rparr>)\<rparr>"
    by (rule Cons.IH [OF s1])
  also have "\<dots> = s\<lparr>textboxes := map (\<lambda>tb. if tb_id tb = drag_id d
                               then tb\<lparr>tb_x := tb_x tb + sum_list (map fst (a # ds)),
                                       tb_y := tb_y tb + sum_list (map snd (a # ds))\<rparr>
                               else tb) (textboxes s),
       dragState := Some (d\<lparr>startX := startX d + sum_list (map fst (a # ds)),
                            startY := startY d + sum_list (map snd (a # ds))\<rparr>),
       dragListeners := Some
         (map (\<lambda>tb. if tb_id tb = drag_id d
                     then tb\<lparr>tb_x := tb_x tb + sum_list (map fst (a # ds)),
                             tb_y := tb_y tb + sum_list (map snd (a # ds))\<rparr>
                     else tb) (textboxes s),
          d\<lparr>startX := startX d + sum_list (map fst (a # ds)),
            startY := startY d + sum_list (map snd (a # ds))\<rparr>)\<rparr>"
    using Cons.prems(1) by (simp add: window_mousemove_registered add.assoc)
  finally show ?case .
qed

text \<open>
  An event that changes the collection and not \<^verbatim>\<open>dragState\<close> leaves the listeners of the
  earlier render in place: the next pointer-move maps the collection of that render, and
  the text typed in between is lost.
\<close>

lemma stale_listener_overwrites_change:
  "tb_text (textboxes (tb_change (demo_boxes ! 0) ''hello''
      (tb_mousedown BoxBody (demo_boxes ! 1) \<lparr>clientX = 15, clientY = 25\<rparr> demo_overlay)) ! 0)
     = ''hello''
   \<and> tb_text (textboxes (window_mousemove \<lparr>clientX = 16, clientY = 25\<rparr>
       (tb_change (demo_boxes ! 0) ''hello''
         (tb_mousedown BoxBody (demo_boxes ! 1) \<lparr>clientX = 15, clientY = 25\<rparr> demo_overlay))) ! 0)
     = ''hell''"
  by (simp add: demo_overlay_def demo_boxes_def tb_mousedown_def onMouseDown_def drag_effect_def
      tb_change_def onChange_def window_mousemove_def handleMouseMove_def Let_def)

lemma digit_char_inj:
  "a < 10 \<Longrightarrow> b < 10 \<Longrightarrow> digit_char a = digit_char b \<Longrightarrow> a = b"
proof -
  assume a: "a < 10" and b: "b < 10" and eq: "digit_char a = digit_char b"
  have d: "distinct ''0123456789''" by simp
  have l: "length ''0123456789'' = 10" by simp
  from eq have "''0123456789'' ! a = ''0123456789'' ! b" by (simp only: digit_char_def)
  with d a b l show "a = b" by (metis nth_eq_iff_index_eq)
qed

lemma digit_char_not_minus: "d < 10 \<Longrightarrow> digit_char d \<noteq> CHR ''-''"
proof -
  assume "d < 10"
  then have "d \<in> {0,1,2,3,4,5,6,7,8,9}" by auto
  then show ?thesis unfolding digit_char_def by auto
qed

lemma digits_small: "n < 10 \<Longrightarrow> digits n = [digit_char n]"
  by (simp add: digits.simps)

lemma digits_large: "\<not> n < 10 \<Longrightarrow> digits n = digits (n div 10) @ [digit_char (n mod 10)]"
  by (subst digits.simps) simp

lemma digits_not_Nil: "digits n \<noteq> []"
  by (cases "n < 10") (simp_all add: digits_small digits_large)

lemma length_digits_large: "\<not> n < 10 \<Longrightarrow> 2 \<le> length (digits n)"
proof -
  assume "\<not> n < 10"
  then have "digits n = digits (n div 10) @ [digit_char (n mod 10)]" by (rule digits_large)
  then have "length (digits n) = Suc (length (digits (n div 10)))"
    by (metis length_append_singleton)
  moreover have "0 < length (digits (n div 10))"
    using digits_not_Nil [of "n div 10"] by (cases "digits (n div 10)") simp_all
  ultimately show ?thesis by linarith
qed

lemma digits_no_minus: "CHR ''-'' \<notin> set (digits n)"
proof (induction n rule: digits.induct)
  case (1 n)
  show ?case
  proof (cases "n < 10")
    case True
    then show ?thesis using digit_char_not_minus [of n] by (simp add: digits_small)
  next
    case False
    have "n mod 10 < 10" by simp
    then have "digit_char (n mod 10) \<noteq> CHR ''-''" by (rule digit_char_not_minus)
    with False 1 show ?thesis by (simp add: digits_large)
  qed
qed

lemma digits_inj: "digits m = digits n \<Longrightarrow> m = n"
proof (induction m arbitrary: n rule: digits.induct)
  case (1 m)
  show ?case
  proof (cases "m < 10")
    case True
    then have dm: "digits m = [digit_char m]" by (rule digits_small)
    have n10: "n < 10"
    proof (rule ccontr)
      assume "\<not> n < 10"
      then have "2 \<le> length (digits n)" by (rule length_digits_large)
      moreover from "1.prems" dm have "length (digits n) = 1" by (metis length_Cons list.size(3) One_nat_def)
      ultimately show False by simp
    qed
    then have "digits n = [digit_char n]" by (rule digits_small)
    with "1.prems" dm have "digit_char m = digit_char n" by simp
    with True n10 show ?thesis by (rule digit_char_inj)
  next
    case False
    then have dm: "digits m = digits (m div 10) @ [digit_char (m mod 10)]" by (rule digits_large)
    have n10: "\<not> n < 10"
    proof
      assume "n < 10"
      then have "digits n = [digit_char n]" by (rule digits_small)
      then have "length (digits n) = 1" by simp
      with "1.prems" length_digits_large [OF False] show False by simp
    qed
    then have dn: "digits n = digits (n div 10) @ [digit_char (n mod 10)]" by (rule digits_large)
    from "1.prems" dm dn have a: "digits (m div 10) = digits (n div 10)"
      and b: "digit_char (m mod 10) = digit_char (n mod 10)" by simp_all
    from "1.IH" [OF False a] have q: "m div 10 = n div 10" .
    have "m mod 10 = n mod 10" by (rule digit_char_inj [OF _ _ b]) simp_all
    with q show ?thesis by (metis div_mult_mod_eq)
  qed
qed

lemma toString_inj: "toString a = toString b \<Longrightarrow> a = b"
proof -
  assume eq: "toString a = toString b"
  have hd_neg: "\<And>n. hd (digits n) \<noteq> CHR ''-''"
    using digits_no_minus digits_not_Nil by (metis list.set_sel(1))
  show "a = b"
  proof (cases "a < 0")
    case True
    show ?thesis
    proof (cases "b < 0")
      case True
      with \<open>a < 0\<close> eq have "digits (nat (- a)) = digits (nat (- b))" by (simp add: toString_def)
      then have "nat (- a) = nat (- b)" by (rule digits_inj)
      with True \<open>a < 0\<close> show ?thesis by simp
    next
      case False
      with True eq have "CHR ''-'' # digits (nat (- a)) = digits (nat b)" by (simp add: toString_def)
      then have "hd (digits (nat b)) = CHR ''-''" by (metis list.sel(1))
      with hd_neg show ?thesis by blast
    qed
  next
    case False
    show ?thesis
    proof (cases "b < 0")
      case True
      with False eq have "digits (nat a) = CHR ''-'' # digits (nat (- b))" by (simp add: toString_def)
      then have "hd (digits (nat a)) = CHR ''-''" by (metis list.sel(1))
      with hd_neg show ?thesis by blast
    next
      case b: False
      with False eq have "digits (nat a) = digits (nat b)" by (simp add: toString_def)
      then have "nat a = nat b" by (rule digits_inj)
      with False b show ?thesis by simp
    qed
  qed
qed

lemma toggle_chord_off:
  "\<not> isTextboxMode s \<Longrightarrow>
   isTextboxMode (toggle_chord s) \<and> textboxes (toggle_chord s) = textboxes s"
  by (simp add: toggle_chord_def tb_keyup_def tb_keydown_def tb_after_render_def
      tb_handleKeyUp_def tb_handleKeyDown_def tabKey_def tKey_def Let_def)

lemma place_all_textboxes:
  "\<not> isTextboxMode s \<Longrightarrow>
   textboxes (place_all cs s) = textboxes s @ map (\<lambda>c. newTextbox (fst c) (snd c)) cs
   \<and> \<not> isTextboxMode (place_all cs s)"
proof (induction cs arbitrary: s)
  case Nil
  then show ?case by simp
next
  case (Cons c cs)
  let ?s' = "tb_click (fst c) (snd c) (toggle_chord s)"
  from toggle_chord_off [OF Cons.prems]
  have s': "\<not> isTextboxMode ?s'"
    "textboxes ?s' = textboxes s @ [newTextbox (fst c) (snd c)]"
    by (simp_all add: tb_click_def tb_after_render_def handleOverlayClick_def)
  from Cons.IH [OF s'(1)] s'(2) show ?case by simp
qed

subsection \<open>Dragging\<close>

text \<open>
  C1, as the code has it. A pointer-down on a box, editing or not, begins a drag tracked by
  the box's id and the pointer position; a pointer-down on the delete control begins none.
  Each pointer-move adds the delta since the last recorded pointer position to the position
  of every box that has the tracked id and records the new pointer position, so the moves
  with deltas \<open>ds\<close> change the position of the dragged box, and of any box that shares
  its id, by the sums of the deltas. Boxes with another id are unchanged, which is every
  other box when the ids are distinct. Pointer-up ends the drag, and a pointer-move after
  it changes nothing.
\<close>

theorem textbox_drag:
  assumes "k < length (textboxes s)"
  shows
    "tb_mousedown DeleteControl (textboxes s ! k) e s = s
     \<and> dragState (tb_mousedown BoxBody (textboxes s ! k) e s) =
         Some \<lparr>drag_id = tb_id (textboxes s ! k), startX = clientX e, startY = clientY e\<rparr>
     \<and> textboxes (tb_mousedown BoxBody (textboxes s ! k) e s) = textboxes s
     \<and> (let s' = drag_moves (pointer_path (clientX e, clientY e) ds)
                    (tb_mousedown BoxBody (textboxes s ! k) e s)
        in length (textboxes s') = length (textboxes s)
         \<and> (\<forall>j<length (textboxes s). tb_id (textboxes s ! j) = tb_id (textboxes s ! k) \<longrightarrow>
               textboxes s' ! j =
                 (textboxes s ! j)\<lparr>tb_x := tb_x (textboxes s ! j) + sum_list (map fst ds),
                                   tb_y := tb_y (textboxes s ! j) + sum_list (map snd ds)\<rparr>)
         \<and> textboxes s' ! k =
             (textboxes s ! k)\<lparr>tb_x := tb_x (textboxes s ! k) + sum_list (map fst ds),
                               tb_y := tb_y (textboxes s ! k) + sum_list (map snd ds)\<rparr>
         \<and> (\<forall>j<length (textboxes s). tb_id (textboxes s ! j) \<noteq> tb_id (textboxes s ! k) \<longrightarrow>
               textboxes s' ! j = textboxes s ! j)
         \<and> (distinct (map tb_id (textboxes s)) \<longrightarrow>
               (\<forall>j<length (textboxes s). j \<noteq> k \<longrightarrow> textboxes s' ! j = textboxes s ! j))
         \<and> dragState s' =
             Some \<lparr>drag_id = tb_id (textboxes s ! k),
                   startX = clientX e + sum_list (map fst ds),
                   startY = clientY e + sum_list (map snd ds)\<rparr>
         \<and> dragState (window_mouseup s') = None
         \<and> textboxes (window_mouseup s') = textboxes s'
         \<and> window_mousemove m (window_mouseup s') = window_mouseup s')"
proof -
  let ?b = "textboxes s ! k"
  let ?d = "\<lparr>drag_id = tb_id ?b, startX = clientX e, startY = clientY e\<rparr>"
  let ?s0 = "tb_mousedown BoxBody ?b e s"
  let ?s' = "drag_moves (pointer_path (clientX e, clientY e) ds) ?s0"
  let ?M = "map (\<lambda>tb. if tb_id tb = tb_id ?b
                               then tb\<lparr>tb_x := tb_x tb + sum_list (map fst ds),
                                       tb_y := tb_y tb + sum_list (map snd ds)\<rparr>
                               else tb) (textboxes s)"
  let ?D = "\<lparr>drag_id = tb_id ?b,
                   startX = clientX e + sum_list (map fst ds),
                   startY = clientY e + sum_list (map snd ds)\<rparr>"
  have down: "dragState ?s0 = Some ?d" "textboxes ?s0 = textboxes s"
    "dragListeners ?s0 = Some (textboxes ?s0, ?d)"
    by (simp_all add: tb_mousedown_def onMouseDown_def drag_effect_def)
  have nodrag: "tb_mousedown DeleteControl ?b e s = s"
    by (simp add: tb_mousedown_def onMouseDown_def)
  from drag_moves_path [OF down(3) down(1), of ds]
  have s': "?s' = ?s0\<lparr>textboxes := ?M, dragState := Some ?D, dragListeners := Some (?M, ?D)\<rparr>"
    by (simp add: down(2))
  have tbs: "textboxes ?s' = ?M"
    by (subst s') simp
  have ds': "dragState ?s' = Some ?D"
    by (subst s') simp
  have ls': "dragListeners ?s' = Some (?M, ?D)"
    by (subst s') simp
  have len: "length (textboxes ?s') = length (textboxes s)"
    by (simp add: tbs)
  have same: "\<forall>j<length (textboxes s). tb_id (textboxes s ! j) = tb_id ?b \<longrightarrow>
               textboxes ?s' ! j =
                 (textboxes s ! j)\<lparr>tb_x := tb_x (textboxes s ! j) + sum_list (map fst ds),
                                   tb_y := tb_y (textboxes s ! j) + sum_list (map snd ds)\<rparr>"
    by (simp add: tbs)
  have kth: "textboxes ?s' ! k =
             ?b\<lparr>tb_x := tb_x ?b + sum_list (map fst ds), tb_y := tb_y ?b + sum_list (map snd ds)\<rparr>"
    using assms by (simp add: tbs)
  have others: "\<forall>j<length (textboxes s). tb_id (textboxes s ! j) \<noteq> tb_id ?b \<longrightarrow>
               textboxes ?s' ! j = textboxes s ! j"
    by (simp add: tbs)
  have others_idx: "distinct (map tb_id (textboxes s)) \<longrightarrow>
               (\<forall>j<length (textboxes s). j \<noteq> k \<longrightarrow> textboxes ?s' ! j = textboxes s ! j)"
    using others assms distinct_ids_nth by blast
  have up: "dragState (window_mouseup ?s') = None"
    "textboxes (window_mouseup ?s') = textboxes ?s'"
    "dragListeners (window_mouseup ?s') = None"
    using ls' by (simp_all add: window_mouseup_def handleMouseUp_def drag_effect_def)
  have after: "window_mousemove m (window_mouseup ?s') = window_mouseup ?s'"
    using up(3) by (simp add: window_mousemove_def)
  show ?thesis
    unfolding Let_def
    using nodrag down(1,2) len same kth others others_idx ds' up(1,2) after by blast
qed

theorem textbox_drag_witness:
  "textboxes (drag_moves (pointer_path (15, 25) [(30, 15), (-5, 2)])
      (tb_mousedown BoxBody (textboxes demo_overlay ! 1) \<lparr>clientX = 15, clientY = 25\<rparr>
         demo_overlay)) ! 1 =
     \<lparr>tb_id = ''textbox-2000'', tb_x = 35, tb_y = 37, tb_text = ''note'', tb_isEditing = False\<rparr>
   \<and> textboxes (drag_moves (pointer_path (15, 25) [(30, 15), (-5, 2)])
      (tb_mousedown BoxBody (textboxes demo_overlay ! 1) \<lparr>clientX = 15, clientY = 25\<rparr>
         demo_overlay)) ! 0 = demo_boxes ! 0"
  using textbox_drag [of 1 demo_overlay "\<lparr>clientX = 15, clientY = 25\<rparr>" "[(30, 15), (-5, 2)]"]
  by (simp add: demo_overlay_def demo_boxes_def Let_def)

text \<open>
  C1 as stated fails: after two placement clicks that read the same clock value, the two
  boxes share an id, and dragging the first, not in editing state, by (30, 15) moves the
  second from (300, 200) to (330, 215).
\<close>

theorem drag_moves_box_with_same_id:
  "\<not> tb_isEditing (textboxes twin_committed ! 0)
   \<and> tb_x (textboxes twin_committed ! 1) = 300
   \<and> tb_y (textboxes twin_committed ! 1) = 200
   \<and> tb_x (textboxes (window_mousemove \<lparr>clientX = 150, clientY = 95\<rparr>
        (tb_mousedown BoxBody (textboxes twin_committed ! 0) \<lparr>clientX = 120, clientY = 80\<rparr>
           twin_committed)) ! 1) = 330
   \<and> tb_y (textboxes (window_mousemove \<lparr>clientX = 150, clientY = 95\<rparr>
        (tb_mousedown BoxBody (textboxes twin_committed ! 0) \<lparr>clientX = 120, clientY = 80\<rparr>
           twin_committed)) ! 1) = 215"
  by (simp add: twin_committed_def twin_overlay_def twin_clicks_def init_overlay_def
      toggle_chord_def tb_keyup_def tb_keydown_def tb_click_def tb_blur_def onBlur_def
      handleTextChange_def tb_after_render_def tb_handleKeyUp_def tb_handleKeyDown_def
      tabKey_def tKey_def handleOverlayClick_def newTextbox_def tb_mousedown_def
      onMouseDown_def drag_effect_def window_mousemove_def handleMouseMove_def Let_def)

subsection \<open>Placement\<close>

text \<open>
  C2. A click while textbox mode is on appends exactly one textbox to the collection, at
  the click's client coordinates plus the scroll offsets, with empty text and in editing
  state, and turns textbox mode off; a click while textbox mode is off changes nothing.
\<close>

theorem placement_click:
  "handleOverlayClick e w s =
     (if isTextboxMode s
      then s\<lparr>textboxes := textboxes s @ [newTextbox e w], isTextboxMode := False\<rparr>
      else s)
   \<and> tb_x (newTextbox e w) = clientX e + scrollX w
   \<and> tb_y (newTextbox e w) = clientY e + scrollY w
   \<and> tb_isEditing (newTextbox e w)
   \<and> tb_text (newTextbox e w) = ''''
   \<and> length (textboxes (handleOverlayClick e w s)) =
       (if isTextboxMode s then Suc (length (textboxes s)) else length (textboxes s))
   \<and> \<not> isTextboxMode (handleOverlayClick e w s)"
  by (simp add: handleOverlayClick_def newTextbox_def)

text \<open>
  C9, as the code has it. The id of a new box is \<^verbatim>\<open>textbox-\<close> followed by the reading of the
  millisecond clock at the click. The ids in the collection are pairwise distinct after any
  sequence of placement clicks whose clock readings are pairwise distinct, when the
  collection started with distinct ids none of which is one of the new ones.
\<close>

theorem ids_distinct_when_clock_distinct:
  assumes "\<not> isTextboxMode s"
    and "distinct (map tb_id (textboxes s))"
    and "distinct (map (\<lambda>c. now (snd c)) cs)"
    and "\<forall>c\<in>set cs. ''textbox-'' @ toString (now (snd c)) \<notin> tb_id ` set (textboxes s)"
  shows "distinct (map tb_id (textboxes (place_all cs s)))"
proof -
  have new: "map tb_id (map (\<lambda>c. newTextbox (fst c) (snd c)) cs) =
             map (\<lambda>t. ''textbox-'' @ toString t) (map (\<lambda>c. now (snd c)) cs)"
    by (simp add: newTextbox_def comp_def)
  have "inj (\<lambda>t. ''textbox-'' @ toString t)"
    by (rule injI) (simp add: toString_inj)
  then have d: "distinct (map tb_id (map (\<lambda>c. newTextbox (fst c) (snd c)) cs))"
    unfolding new using assms(3) by (simp add: distinct_map inj_on_def toString_inj del: map_map)
  have disj: "set (map tb_id (textboxes s)) \<inter>
              set (map tb_id (map (\<lambda>c. newTextbox (fst c) (snd c)) cs)) = {}"
  proof -
    have "\<And>b c. b \<in> set (textboxes s) \<Longrightarrow> c \<in> set cs \<Longrightarrow>
            tb_id b \<noteq> tb_id (newTextbox (fst c) (snd c))"
    proof
      fix b c
      assume b: "b \<in> set (textboxes s)" and c: "c \<in> set cs"
        and eq: "tb_id b = tb_id (newTextbox (fst c) (snd c))"
      from assms(4) c have "''textbox-'' @ toString (now (snd c)) \<notin> tb_id ` set (textboxes s)"
        by blast
      moreover from eq have "tb_id b = ''textbox-'' @ toString (now (snd c))"
        by (simp add: newTextbox_def)
      ultimately show False using b by (metis imageI)
    qed
    then show ?thesis by auto
  qed
  from place_all_textboxes [OF assms(1), of cs] assms(2) d disj show ?thesis
    by (simp del: map_map)
qed

theorem ids_distinct_witness:
  "distinct (map tb_id (textboxes (place_all
      [(\<lparr>clientX = 120, clientY = 80\<rparr>, \<lparr>scrollX = 0, scrollY = 0, now = 1000\<rparr>),
       (\<lparr>clientX = 10, clientY = 20\<rparr>, \<lparr>scrollX = 0, scrollY = 5, now = 1001\<rparr>)] init_overlay)))"
  using ids_distinct_when_clock_distinct [of init_overlay
      "[(\<lparr>clientX = 120, clientY = 80\<rparr>, \<lparr>scrollX = 0, scrollY = 0, now = 1000\<rparr>),
       (\<lparr>clientX = 10, clientY = 20\<rparr>, \<lparr>scrollX = 0, scrollY = 5, now = 1001\<rparr>)]"]
  by (simp add: init_overlay_def)

text \<open>
  C9 as stated fails: two placement clicks that read the same clock value give two boxes
  with the same id.
\<close>

theorem same_clock_reading_same_id:
  "\<not> distinct (map tb_id (textboxes (place_all
      [(\<lparr>clientX = 120, clientY = 80\<rparr>, \<lparr>scrollX = 0, scrollY = 0, now = 1000\<rparr>),
       (\<lparr>clientX = 300, clientY = 200\<rparr>, \<lparr>scrollX = 0, scrollY = 0, now = 1000\<rparr>)] init_overlay)))"
  by (simp add: init_overlay_def toggle_chord_def tb_keyup_def tb_keydown_def tb_click_def
      tb_after_render_def tb_handleKeyUp_def tb_handleKeyDown_def tabKey_def tKey_def
      handleOverlayClick_def newTextbox_def Let_def)

subsection \<open>Editing\<close>

text \<open>
  C6, as the code has it. For a box in editing state: losing focus with no new focus
  target, or with one that is not a \<^verbatim>\<open>button\<close> element, stores the field's value as the
  text of the box and leaves editing state; losing focus to a \<^verbatim>\<open>button\<close> element, the
  delete button or any other, changes nothing. Enter without Shift prevents the default
  action and leaves editing state; of the two updates the handler queues the second is
  computed from the rendered collection and replaces the first, so the text is the one the
  change events stored, which is the field's value since the field shows the stored text.
  Shift+Enter changes nothing and does not prevent the default action, which inserts the
  newline. Boxes with another id are unchanged throughout.
\<close>

theorem commit_on_blur_or_enter:
  assumes "k < length tbs" and "tb_isEditing (tbs ! k)"
  shows
    "((rt = None \<or> (\<exists>t. rt = Some t \<and> \<not> matches_button t)) \<longrightarrow>
        length (onBlur (tbs ! k) rt v tbs) = length tbs
      \<and> onBlur (tbs ! k) rt v tbs ! k = (tbs ! k)\<lparr>tb_text := v, tb_isEditing := False\<rparr>
      \<and> (\<forall>j<length tbs. tb_id (tbs ! j) \<noteq> tb_id (tbs ! k) \<longrightarrow>
            onBlur (tbs ! k) rt v tbs ! j = tbs ! j))
     \<and> ((\<exists>t. rt = Some t \<and> matches_button t) \<longrightarrow> onBlur (tbs ! k) rt v tbs = tbs)
     \<and> (ev_key e = ''Enter'' \<and> \<not> shiftKey e \<longrightarrow>
          snd (onKeyDown (tbs ! k) e v tbs)
        \<and> length (fst (onKeyDown (tbs ! k) e v tbs)) = length tbs
        \<and> fst (onKeyDown (tbs ! k) e v tbs) ! k = (tbs ! k)\<lparr>tb_isEditing := False\<rparr>
        \<and> (v = tb_text (tbs ! k) \<longrightarrow>
             fst (onKeyDown (tbs ! k) e v tbs) ! k = (tbs ! k)\<lparr>tb_text := v, tb_isEditing := False\<rparr>)
        \<and> (\<forall>j<length tbs. tb_id (tbs ! j) \<noteq> tb_id (tbs ! k) \<longrightarrow>
              fst (onKeyDown (tbs ! k) e v tbs) ! j = tbs ! j))
     \<and> (ev_key e = ''Enter'' \<and> shiftKey e \<longrightarrow> onKeyDown (tbs ! k) e v tbs = (tbs, False))"
proof -
  have blur: "(rt = None \<or> (\<exists>t. rt = Some t \<and> \<not> matches_button t)) \<longrightarrow>
        length (onBlur (tbs ! k) rt v tbs) = length tbs
      \<and> onBlur (tbs ! k) rt v tbs ! k = (tbs ! k)\<lparr>tb_text := v, tb_isEditing := False\<rparr>
      \<and> (\<forall>j<length tbs. tb_id (tbs ! j) \<noteq> tb_id (tbs ! k) \<longrightarrow>
            onBlur (tbs ! k) rt v tbs ! j = tbs ! j)"
    using assms(1) by (auto simp: onBlur_def handleTextChange_def)
  have button: "(\<exists>t. rt = Some t \<and> matches_button t) \<longrightarrow> onBlur (tbs ! k) rt v tbs = tbs"
    by (auto simp: onBlur_def)
  have enter: "ev_key e = ''Enter'' \<and> \<not> shiftKey e \<longrightarrow>
          snd (onKeyDown (tbs ! k) e v tbs)
        \<and> length (fst (onKeyDown (tbs ! k) e v tbs)) = length tbs
        \<and> fst (onKeyDown (tbs ! k) e v tbs) ! k = (tbs ! k)\<lparr>tb_isEditing := False\<rparr>
        \<and> (v = tb_text (tbs ! k) \<longrightarrow>
             fst (onKeyDown (tbs ! k) e v tbs) ! k = (tbs ! k)\<lparr>tb_text := v, tb_isEditing := False\<rparr>)
        \<and> (\<forall>j<length tbs. tb_id (tbs ! j) \<noteq> tb_id (tbs ! k) \<longrightarrow>
              fst (onKeyDown (tbs ! k) e v tbs) ! j = tbs ! j)"
    using assms(1) by (simp add: onKeyDown_def handleTextChange_def)
  have shift: "ev_key e = ''Enter'' \<and> shiftKey e \<longrightarrow> onKeyDown (tbs ! k) e v tbs = (tbs, False)"
    by (simp add: onKeyDown_def)
  from blur button enter shift show ?thesis by blast
qed

theorem commit_on_blur_or_enter_witness:
  "onBlur (demo_boxes ! 0) None ''hell'' demo_boxes ! 0 =
     \<lparr>tb_id = ''textbox-1000'', tb_x = 120, tb_y = 80, tb_text = ''hell'', tb_isEditing = False\<rparr>
   \<and> onBlur (demo_boxes ! 0) (Some (DeleteButtonOf ''textbox-1000'')) ''hell'' demo_boxes
       = demo_boxes
   \<and> fst (onKeyDown (demo_boxes ! 0) \<lparr>ev_code = ''Enter'', ev_key = ''Enter'', shiftKey = False\<rparr>
            ''hell'' demo_boxes) ! 0 =
     \<lparr>tb_id = ''textbox-1000'', tb_x = 120, tb_y = 80, tb_text = ''hell'', tb_isEditing = False\<rparr>
   \<and> onKeyDown (demo_boxes ! 0) \<lparr>ev_code = ''Enter'', ev_key = ''Enter'', shiftKey = True\<rparr>
            ''hell'' demo_boxes = (demo_boxes, False)"
  using commit_on_blur_or_enter [of 0 demo_boxes "None" "''hell''"
      "\<lparr>ev_code = ''Enter'', ev_key = ''Enter'', shiftKey = False\<rparr>"]
    commit_on_blur_or_enter [of 0 demo_boxes "Some (DeleteButtonOf ''textbox-1000'')" "''hell''"
      "\<lparr>ev_code = ''Enter'', ev_key = ''Enter'', shiftKey = True\<rparr>"]
  by (simp add: demo_boxes_def)

text \<open>
  C6 as stated fails: the new focus target is a button that is not the delete button, and
  the box stays in editing state.
\<close>

theorem blur_to_another_button_does_not_commit:
  "\<not> (\<forall>i. Some (OtherElement ''button'') = Some (DeleteButtonOf i))
   \<and> tb_isEditing (demo_boxes ! 0)
   \<and> tb_isEditing
       (onBlur (demo_boxes ! 0) (Some (OtherElement ''button'')) (tb_text (demo_boxes ! 0))
          demo_boxes ! 0)
   \<and> onBlur (demo_boxes ! 0) (Some (OtherElement ''button'')) ''hello'' demo_boxes = demo_boxes"
  by (simp add: demo_boxes_def onBlur_def)

text \<open>
  C10, as the code has it. For a box in editing state, a change event of its text field
  stores the field's value as the text of the box, and of every box that shares its id, and
  leaves their editing flags, positions and ids as they are; boxes with another id are
  unchanged, which is every other box when the ids are distinct.
\<close>

theorem change_stores_text:
  assumes "k < length tbs" and "tb_isEditing (tbs ! k)"
  shows "length (onChange (tbs ! k) v tbs) = length tbs
    \<and> onChange (tbs ! k) v tbs ! k = (tbs ! k)\<lparr>tb_text := v\<rparr>
    \<and> tb_text (onChange (tbs ! k) v tbs ! k) = v
    \<and> tb_isEditing (onChange (tbs ! k) v tbs ! k)
    \<and> tb_x (onChange (tbs ! k) v tbs ! k) = tb_x (tbs ! k)
    \<and> tb_y (onChange (tbs ! k) v tbs ! k) = tb_y (tbs ! k)
    \<and> (\<forall>j<length tbs. tb_id (tbs ! j) = tb_id (tbs ! k) \<longrightarrow>
          onChange (tbs ! k) v tbs ! j = (tbs ! j)\<lparr>tb_text := v\<rparr>)
    \<and> (\<forall>j<length tbs. tb_id (tbs ! j) \<noteq> tb_id (tbs ! k) \<longrightarrow>
          onChange (tbs ! k) v tbs ! j = tbs ! j)
    \<and> (distinct (map tb_id tbs) \<longrightarrow>
          (\<forall>j<length tbs. j \<noteq> k \<longrightarrow> onChange (tbs ! k) v tbs ! j = tbs ! j))"
proof -
  have same: "\<forall>j<length tbs. tb_id (tbs ! j) = tb_id (tbs ! k) \<longrightarrow>
          onChange (tbs ! k) v tbs ! j = (tbs ! j)\<lparr>tb_text := v\<rparr>"
    by (simp add: onChange_def)
  have others: "\<forall>j<length tbs. tb_id (tbs ! j) \<noteq> tb_id (tbs ! k) \<longrightarrow>
          onChange (tbs ! k) v tbs ! j = tbs ! j"
    by (simp add: onChange_def)
  have "distinct (map tb_id tbs) \<longrightarrow>
          (\<forall>j<length tbs. j \<noteq> k \<longrightarrow> onChange (tbs ! k) v tbs ! j = tbs ! j)"
    using others assms(1) distinct_ids_nth by blast
  with same others assms show ?thesis by (simp add: onChange_def)
qed

theorem change_stores_text_witness:
  "onChange (demo_boxes ! 0) ''hello'' demo_boxes ! 0 =
     \<lparr>tb_id = ''textbox-1000'', tb_x = 120, tb_y = 80, tb_text = ''hello'', tb_isEditing = True\<rparr>
   \<and> onChange (demo_boxes ! 0) ''hello'' demo_boxes ! 1 = demo_boxes ! 1"
  using change_stores_text [of 0 demo_boxes "''hello''"]
  by (simp add: demo_boxes_def)

text \<open>
  C10 as stated fails: after two placement clicks that read the same clock value, both
  boxes are in editing state and share an id, and a change event of the second box's field
  with the value \<open>a\<close> replaces the empty text of the first box as well.
\<close>

theorem change_rewrites_box_with_same_id:
  "tb_isEditing (textboxes twin_overlay ! 1)
   \<and> tb_text (textboxes twin_overlay ! 0) = ''''
   \<and> tb_text (onChange (textboxes twin_overlay ! 1) ''a'' (textboxes twin_overlay) ! 0) = ''a''"
  by (simp add: twin_overlay_def twin_clicks_def init_overlay_def
      toggle_chord_def tb_keyup_def tb_keydown_def tb_click_def
      tb_after_render_def tb_handleKeyUp_def tb_handleKeyDown_def
      tabKey_def tKey_def handleOverlayClick_def newTextbox_def onChange_def Let_def)

subsection \<open>Deleting\<close>





section \<open>Properties of the scribble overlay\<close>

subsection \<open>Helper lemmas\<close>

lemma run_append:
  "run (as @ bs) s = (case run as s of Inl err \<Rightarrow> Inl err | Inr s' \<Rightarrow> run bs s')"
  by (induction as arbitrary: s) (auto split: sum.splits)

lemma ctx_of_Some:
  "ctx_of s = Some ctx \<Longrightarrow> \<exists>c. canvasRef s = Some c \<and> ctx2d c = Some ctx"
  by (auto simp: ctx_of_def split: option.splits)

lemma step_hover:
  assumes "isScribbleMode s" "\<not> isDrawing s" "\<not> isSpaceHeld s" "\<not> isMouseDown s"
  shows "step (Pointer (MouseMove e r)) s = Inr s"
  using assms
  by (auto simp: step_def canvas_handler_def draw_def after_render_def Let_def
      split: option.splits)

lemma step_down:
  assumes "isScribbleMode s" "\<not> isDrawing s" "ctx_of s = Some ctx"
  shows "\<exists>s'. step (Pointer (MouseDown e r)) s = Inr s'
     \<and> isScribbleMode s' \<and> isDrawing s' \<and> isMouseDown s'
     \<and> isSpaceHeld s' = isSpaceHeld s \<and> isEraser s' = isEraser s
     \<and> backgroundState s' = backgroundState s
     \<and> lastDrawnState s' = lastDrawnState s
     \<and> ctx_of s' = Some
         (if isEraser s
          then ctx\<lparr>calls := calls ctx @
                      [BeginPath, MoveTo (clientX e - rect_left r) (clientY e - rect_top r)],
                   globalCompositeOperation := ''destination-out'', lineWidth := 20\<rparr>
          else ctx\<lparr>calls := calls ctx @
                      [BeginPath, MoveTo (clientX e - rect_left r) (clientY e - rect_top r)],
                   globalCompositeOperation := ''source-over'', lineWidth := 2,
                   strokeStyle := strokeColor s\<rparr>)"
proof -
  from assms(3) obtain c where c: "canvasRef s = Some c" "ctx2d c = Some ctx"
    using ctx_of_Some by blast
  show ?thesis
    using assms(1,2) c
    by (simp add: step_def canvas_handler_def startDrawing_def after_render_def Let_def
        save_effect_def with_ctx_def ctx_of_def)
qed

lemma step_move:
  assumes "isScribbleMode s" "isDrawing s" "isMouseDown s \<or> isSpaceHeld s" "ctx_of s = Some ctx"
  shows "\<exists>s'. step (Pointer (MouseMove e r)) s = Inr s'
     \<and> isScribbleMode s' \<and> isDrawing s' \<and> isMouseDown s' = isMouseDown s
     \<and> isSpaceHeld s' = isSpaceHeld s \<and> isEraser s' = isEraser s
     \<and> backgroundState s' = backgroundState s
     \<and> didDrawInStroke s'
     \<and> lastDrawnState s' = lastDrawnState s
     \<and> ctx_of s' = Some
         (ctx\<lparr>calls := calls ctx @
                 [LineTo (clientX e - rect_left r) (clientY e - rect_top r),
                  Stroke (globalCompositeOperation ctx) (lineWidth ctx) (strokeStyle ctx)]\<rparr>)"
proof -
  from assms(4) obtain c where c: "canvasRef s = Some c" "ctx2d c = Some ctx"
    using ctx_of_Some by blast
  show ?thesis
    using assms(1,2,3) c
    by (auto simp: step_def canvas_handler_def draw_def after_render_def Let_def ctx_of_def)
qed

lemma step_stop:
  assumes "isScribbleMode s" "isDrawing s" "ctx_of s = Some ctx" "ev = MouseUp \<or> ev = MouseOut"
  shows "\<exists>s'. step (Pointer ev) s = Inr s'
     \<and> isScribbleMode s' \<and> \<not> isDrawing s' \<and> \<not> isMouseDown s'
     \<and> isSpaceHeld s' = isSpaceHeld s \<and> isEraser s' = isEraser s
     \<and> backgroundState s' = backgroundState s
     \<and> \<not> didDrawInStroke s'
     \<and> lastDrawnState s' = lastDrawnState s
     \<and> ctx_of s' = Some (ctx\<lparr>calls := calls ctx @ [ClosePath],
                               globalCompositeOperation := ''source-over''\<rparr>)"
proof -
  from assms(3) obtain c where c: "canvasRef s = Some c" "ctx2d c = Some ctx"
    using ctx_of_Some by blast
  show ?thesis
    using assms(1,2,4) c
    by (auto simp: step_def canvas_handler_def stopDrawing_def after_render_def Let_def
        save_effect_def with_ctx_def ctx_of_def)
qed

lemma paths_painted_drag_calls:
  "paths_painted q (drag_calls m w c ps @ rest) =
     (if ps = [] then paths_painted q rest
      else (if q then 0 else 1) + paths_painted True rest)"
  by (induction ps arbitrary: q) auto

lemma BeginPath_notin_drag_calls: "BeginPath \<notin> set (drag_calls m w c ps)"
  by (induction ps) auto

lemma paths_painted_append_BeginPath:
  "paths_painted p (cs @ BeginPath # seg) = paths_painted p cs + paths_painted False seg"
proof (induction cs arbitrary: p)
  case Nil
  show ?case by simp
next
  case (Cons a cs)
  show ?case by (cases a) (simp_all add: Cons.IH)
qed

lemma paths_begun_append: "paths_begun (cs @ ds) = paths_begun cs + paths_begun ds"
  by (simp add: paths_begun_def)

lemma paths_begun_none: "BeginPath \<notin> set cs \<Longrightarrow> paths_begun cs = 0"
  by (induction cs) (auto simp: paths_begun_def)

lemma run_moves:
  assumes "isScribbleMode s" "isDrawing s" "isMouseDown s" "ctx_of s = Some ctx"
  shows "\<exists>s'. run (map (\<lambda>p. Pointer (MouseMove (fst p) (snd p))) ps) s = Inr s'
     \<and> isScribbleMode s' \<and> isDrawing s' \<and> isMouseDown s'
     \<and> isSpaceHeld s' = isSpaceHeld s
     \<and> lastDrawnState s' = lastDrawnState s
     \<and> ctx_of s' = Some
         (ctx\<lparr>calls := calls ctx @
            drag_calls (globalCompositeOperation ctx) (lineWidth ctx) (strokeStyle ctx) ps\<rparr>)"
  using assms
proof (induction ps arbitrary: s ctx)
  case Nil
  then show ?case by simp
next
  case (Cons p ps)
  let ?ctx1 = "ctx\<lparr>calls := calls ctx @
                 [LineTo (clientX (fst p) - rect_left (snd p)) (clientY (fst p) - rect_top (snd p)),
                  Stroke (globalCompositeOperation ctx) (lineWidth ctx) (strokeStyle ctx)]\<rparr>"
  from step_move [of s ctx "fst p" "snd p"] Cons.prems
  obtain s1 where s1: "step (Pointer (MouseMove (fst p) (snd p))) s = Inr s1"
    "isScribbleMode s1" "isDrawing s1" "isMouseDown s1" "isSpaceHeld s1 = isSpaceHeld s"
    "lastDrawnState s1 = lastDrawnState s" "ctx_of s1 = Some ?ctx1"
    by auto
  from Cons.IH [OF s1(2) s1(3) s1(4) s1(7)]
  obtain s' where s': "run (map (\<lambda>p. Pointer (MouseMove (fst p) (snd p))) ps) s1 = Inr s'"
    "isScribbleMode s'" "isDrawing s'" "isMouseDown s'" "isSpaceHeld s' = isSpaceHeld s1"
    "lastDrawnState s' = lastDrawnState s1"
    "ctx_of s' = Some (?ctx1\<lparr>calls := calls ?ctx1 @
            drag_calls (globalCompositeOperation ?ctx1) (lineWidth ?ctx1) (strokeStyle ?ctx1) ps\<rparr>)"
    by blast
  show ?case
    using s1 s' by simp
qed

lemma run_hover:
  assumes "isScribbleMode s" "\<not> isDrawing s" "\<not> isSpaceHeld s" "\<not> isMouseDown s"
  shows "run (map (\<lambda>p. Pointer (MouseMove (fst p) (snd p))) ps) s = Inr s"
  using assms by (induction ps) (simp_all add: step_hover)

text \<open>One gesture from the idle state.\<close>

lemma run_gesture:
  assumes "isScribbleMode s" "\<not> isDrawing s" "\<not> isSpaceHeld s" "\<not> isMouseDown s"
    "ctx_of s = Some ctx"
  shows "\<exists>s' seg. run (gesture_events (hover, down, moves)) s = Inr s'
     \<and> isScribbleMode s' \<and> \<not> isDrawing s' \<and> \<not> isSpaceHeld s' \<and> \<not> isMouseDown s'
     \<and> lastDrawnState s' = lastDrawnState s
     \<and> ctx_of s' \<noteq> None
     \<and> ctx_calls s' = ctx_calls s @ BeginPath # seg
     \<and> BeginPath \<notin> set seg
     \<and> paths_painted False seg = (if moves = [] then 0 else 1)"
proof -
  let ?hov = "map (\<lambda>p. Pointer (MouseMove (fst p) (snd p))) hover"
  let ?mvs = "map (\<lambda>p. Pointer (MouseMove (fst p) (snd p))) moves"
  let ?x = "clientX (fst down) - rect_left (snd down)"
  let ?y = "clientY (fst down) - rect_top (snd down)"
  have h: "run ?hov s = Inr s" using assms(1-4) by (rule run_hover)
  let ?ctx1 = "(if isEraser s
          then ctx\<lparr>calls := calls ctx @ [BeginPath, MoveTo ?x ?y],
                   globalCompositeOperation := ''destination-out'', lineWidth := 20\<rparr>
          else ctx\<lparr>calls := calls ctx @ [BeginPath, MoveTo ?x ?y],
                   globalCompositeOperation := ''source-over'', lineWidth := 2,
                   strokeStyle := strokeColor s\<rparr>)"
  from step_down [OF assms(1,2,5), of "fst down" "snd down"]
  obtain s1 where s1: "step (Pointer (MouseDown (fst down) (snd down))) s = Inr s1"
    "isScribbleMode s1" "isDrawing s1" "isMouseDown s1" "isSpaceHeld s1 = isSpaceHeld s"
    "lastDrawnState s1 = lastDrawnState s" "ctx_of s1 = Some ?ctx1"
    by blast
  let ?m = "globalCompositeOperation ?ctx1" and ?w = "lineWidth ?ctx1" and ?c = "strokeStyle ?ctx1"
  let ?ctx2 = "?ctx1\<lparr>calls := calls ?ctx1 @ drag_calls ?m ?w ?c moves\<rparr>"
  from run_moves [OF s1(2,3,4,7), of moves]
  obtain s2 where s2: "run ?mvs s1 = Inr s2"
    "isScribbleMode s2" "isDrawing s2" "isMouseDown s2" "isSpaceHeld s2 = isSpaceHeld s1"
    "lastDrawnState s2 = lastDrawnState s1" "ctx_of s2 = Some ?ctx2"
    by blast
  let ?ctx3 = "?ctx2\<lparr>calls := calls ?ctx2 @ [ClosePath],
                      globalCompositeOperation := ''source-over''\<rparr>"
  from step_stop [OF s2(2,3,7), of MouseUp]
  obtain s3 where s3: "step (Pointer MouseUp) s2 = Inr s3"
    "isScribbleMode s3" "\<not> isDrawing s3" "\<not> isMouseDown s3" "isSpaceHeld s3 = isSpaceHeld s2"
    "lastDrawnState s3 = lastDrawnState s2" "ctx_of s3 = Some ?ctx3"
    by blast
  let ?seg = "MoveTo ?x ?y # drag_calls ?m ?w ?c moves @ [ClosePath]"
  have r: "run (gesture_events (hover, down, moves)) s = Inr s3"
    using h s1(1) s2(1) s3(1) by (simp add: gesture_events_def run_append)
  have calls: "ctx_calls s3 = ctx_calls s @ BeginPath # ?seg"
    using s3(7) assms(5) by (simp add: ctx_calls_def)
  have nb: "BeginPath \<notin> set ?seg"
    using BeginPath_notin_drag_calls by simp
  have pp: "paths_painted False ?seg = (if moves = [] then 0 else 1)"
    using paths_painted_drag_calls [of False ?m ?w ?c moves "[ClosePath]"] by simp
  from r s3 s2 s1 assms calls nb pp show ?thesis by (intro exI [of _ s3] exI [of _ ?seg]) simp
qed

lemma run_gestures:
  assumes "isScribbleMode s" "\<not> isDrawing s" "\<not> isSpaceHeld s" "\<not> isMouseDown s"
    "ctx_of s \<noteq> None"
  shows "\<exists>s'. run (concat (map gesture_events gs)) s = Inr s'
     \<and> isScribbleMode s' \<and> \<not> isDrawing s' \<and> \<not> isSpaceHeld s' \<and> \<not> isMouseDown s'
     \<and> lastDrawnState s' = lastDrawnState s
     \<and> ctx_of s' \<noteq> None
     \<and> strokes_drawn (ctx_calls s') =
         strokes_drawn (ctx_calls s) + length (filter (\<lambda>g. snd (snd g) \<noteq> []) gs)
     \<and> paths_begun (ctx_calls s') = paths_begun (ctx_calls s) + length gs"
  using assms
proof (induction gs arbitrary: s)
  case Nil
  then show ?case by simp
next
  case (Cons g gs)
  obtain hover down moves where g: "g = (hover, down, moves)" by (cases g) auto
  from Cons.prems(5) obtain ctx where ctx: "ctx_of s = Some ctx" by auto
  from run_gesture [OF Cons.prems(1-4) ctx, of hover down moves]
  obtain s1 seg where s1: "run (gesture_events (hover, down, moves)) s = Inr s1"
    "isScribbleMode s1" "\<not> isDrawing s1" "\<not> isSpaceHeld s1" "\<not> isMouseDown s1"
    "lastDrawnState s1 = lastDrawnState s" "ctx_of s1 \<noteq> None"
    "ctx_calls s1 = ctx_calls s @ BeginPath # seg" "BeginPath \<notin> set seg"
    "paths_painted False seg = (if moves = [] then 0 else 1)"
    by blast
  from Cons.IH [OF s1(2-5) s1(7)]
  obtain s' where s': "run (concat (map gesture_events gs)) s1 = Inr s'"
    "isScribbleMode s'" "\<not> isDrawing s'" "\<not> isSpaceHeld s'" "\<not> isMouseDown s'"
    "lastDrawnState s' = lastDrawnState s1" "ctx_of s' \<noteq> None"
    "strokes_drawn (ctx_calls s') =
         strokes_drawn (ctx_calls s1) + length (filter (\<lambda>g. snd (snd g) \<noteq> []) gs)"
    "paths_begun (ctx_calls s') = paths_begun (ctx_calls s1) + length gs"
    by blast
  have r: "run (concat (map gesture_events (g # gs))) s = Inr s'"
    using s1(1) s'(1) g by (simp add: run_append)
  have sd: "strokes_drawn (ctx_calls s1) = strokes_drawn (ctx_calls s) + (if moves = [] then 0 else 1)"
    using s1(8,10) by (simp add: strokes_drawn_def paths_painted_append_BeginPath)
  have pb: "paths_begun (ctx_calls s1) = paths_begun (ctx_calls s) + 1"
    using s1(8,9) paths_begun_none [of seg] by (simp add: paths_begun_def)
  show ?case
    using r s' s1(6) sd pb g by (intro exI [of _ s']) simp
qed

lemma stopDrawing_keeps:
  "isScribbleMode (stopDrawing s) = isScribbleMode s"
  "isEraser (stopDrawing s) = isEraser s"
  "isSpaceHeld (stopDrawing s) = isSpaceHeld s"
  "backgroundState (stopDrawing s) = backgroundState s"
  "lastDrawnState (stopDrawing s) = lastDrawnState s"
  "sc_isTabPressed (stopDrawing s) = sc_isTabPressed s"
  by (simp_all add: stopDrawing_def split: option.splits)

lemma after_render_stop:
  "isDrawing t = isDrawing s \<Longrightarrow> isScribbleMode t = isScribbleMode s \<Longrightarrow>
   after_render s (stopDrawing t) = Inr (stopDrawing t)"
  by (simp add: after_render_def Let_def save_effect_def stopDrawing_def split: option.splits)

text \<open>Pointer events on the canvas while scribble mode is off.\<close>

lemma step_pointer_stop:
  "ev = MouseUp \<or> ev = MouseOut \<Longrightarrow> step (Pointer ev) s = Inr (stopDrawing s)"
  by (auto simp: step_def canvas_handler_def after_render_stop)

lemma stopDrawing_idle: "\<not> isDrawing s \<Longrightarrow> stopDrawing s = s"
  by (simp add: stopDrawing_def)

lemma step_pointer_off:
  assumes "\<not> isScribbleMode s"
  shows "step (Pointer ev) s =
           Inr (if isDrawing s \<and> (ev = MouseUp \<or> ev = MouseOut) then stopDrawing s else s)"
proof (cases ev)
  case (MouseDown e r)
  with assms show ?thesis
    by (simp add: step_def canvas_handler_def startDrawing_def after_render_def)
next
  case (MouseMove e r)
  with assms show ?thesis
    by (simp add: step_def canvas_handler_def draw_def after_render_def)
next
  case MouseUp
  then show ?thesis
    using step_pointer_stop [of ev s] stopDrawing_idle [of s] by auto
next
  case MouseOut
  then show ?thesis
    using step_pointer_stop [of ev s] stopDrawing_idle [of s] by auto
qed

lemma paths_painted_append_ClosePath:
  "paths_painted p (cs @ [ClosePath]) = paths_painted p cs"
proof (induction cs arbitrary: p)
  case Nil
  show ?case by simp
next
  case (Cons a cs)
  show ?case by (cases a) (simp_all add: Cons.IH)
qed

lemma stopDrawing_paints_nothing:
  "strokes_drawn (ctx_calls (stopDrawing s)) = strokes_drawn (ctx_calls s)"
  "paths_begun (ctx_calls (stopDrawing s)) = paths_begun (ctx_calls s)"
  by (simp_all add: stopDrawing_def ctx_calls_def ctx_of_def with_ctx_def strokes_drawn_def
      paths_begun_def paths_painted_append_ClosePath split: option.splits)

lemma tool_keyup_released:
  "isScribbleMode s \<Longrightarrow> ev_code e = ''Space'' \<or> ev_code e = ''KeyE'' \<Longrightarrow>
   tool_handleKeyUp e s = stopDrawing (s\<lparr>isEraser := backgroundState s, isSpaceHeld := False\<rparr>)"
  by (auto simp: tool_handleKeyUp_def Let_def)

lemma step_keyup_released:
  assumes "isScribbleMode s" "ev_code e = ''Space'' \<or> ev_code e = ''KeyE''"
  shows "step (KeyUp e) s =
           Inr (stopDrawing (s\<lparr>isEraser := backgroundState s, isSpaceHeld := False\<rparr>))"
proof -
  let ?s' = "stopDrawing (s\<lparr>isEraser := backgroundState s, isSpaceHeld := False\<rparr>)"
  from assms(2) have nt: "ev_code e \<noteq> ''Tab''" by auto
  have h: "handle (KeyUp e) s = Inr ?s'"
    using tool_keyup_released [OF assms] nt by (simp add: sc_handleKeyUp_def)
  have "after_render s ?s' = Inr ?s'"
    by (rule after_render_stop) simp_all
  with h show ?thesis by (simp add: step_def)
qed

lemma step_keydown_tool:
  assumes "isScribbleMode s" "ev_code e = ''Space'' \<or> ev_code e = ''KeyE''"
  shows "\<exists>s'. step (KeyDown e) s = Inr s'
     \<and> isEraser s' = (ev_code e = ''KeyE'') \<and> isSpaceHeld s'
     \<and> backgroundState s' = backgroundState s
     \<and> (ev_key e \<noteq> ''Escape'' \<longrightarrow> isScribbleMode s')"
proof -
  let ?t = "tool_handleKeyDown e s"
  have t: "?t = s\<lparr>isSpaceHeld := True, isEraser := (ev_code e = ''KeyE'')\<rparr>"
    using assms by (cases s) (auto simp: tool_handleKeyDown_def Let_def)
  from assms(2) have nt: "ev_code e \<noteq> ''Tab''" "ev_code e \<noteq> ''KeyS''" "ev_code e \<noteq> ''Escape''"
    by auto
  let ?k = "sc_handleKeyDown e ?t"
  have k: "isEraser ?k = (ev_code e = ''KeyE'')" "isSpaceHeld ?k"
    "backgroundState ?k = backgroundState s" "isDrawing ?k = isDrawing s"
    "ev_key e \<noteq> ''Escape'' \<longrightarrow> isScribbleMode ?k"
    using nt assms(1) by (simp_all add: t sc_handleKeyDown_def Let_def)
  have "step (KeyDown e) s = after_render s ?k" by (simp add: step_def)
  then show ?thesis using k by (auto simp: after_render_def Let_def)
qed

lemma demo_scribble_reached:
  "(case updateCanvasSize demo_layout fresh_scribble of
      Inl err \<Rightarrow> Inl err
    | Inr s \<Rightarrow> run [KeyDown (key ''Tab''), KeyDown (key ''KeyS''), KeyUp (key ''Tab'')] s)
   = Inr demo_scribble"
  by (simp add: fresh_scribble_def demo_layout_def demo_scribble_def key_def step_def
      updateCanvasSize_def drawImage_def saveCanvasState_def getImageData_def set_size_def
      default_context_def default_style_def after_render_def save_effect_def
      sc_handleKeyDown_def sc_handleKeyUp_def tool_handleKeyDown_def tool_handleKeyUp_def
      Let_def)

lemma mid_stroke_reached:
  "run [ClickEraser, Pointer (MouseDown (fst (ptr 10 10)) (snd (ptr 10 10))),
        Pointer (MouseMove (fst (ptr 20 20)) (snd (ptr 20 20)))] demo_scribble = Inr mid_stroke"
  by (simp add: ptr_def demo_scribble_def mid_stroke_def step_def canvas_handler_def
      startDrawing_def draw_def after_render_def save_effect_def with_ctx_def Let_def)

subsection \<open>Strokes\<close>

text \<open>
  C3, as the code has it. From a state with scribble mode on, the flags \<^verbatim>\<open>isDrawing\<close>,
  \<^verbatim>\<open>isSpaceHeld\<close> and \<^verbatim>\<open>isMouseDown\<close> all false and the context available, every sequence
  of gestures, each a pointer-down, pointer-moves and a pointer-up, with pointer-moves
  allowed before the pointer-down, is handled without error, begins exactly one path per
  gesture and ends in such a state. A gesture paints its path when it has at least one
  pointer-move between its pointer-down and its pointer-up, so exactly one stroke is drawn
  per down-up pair with a move in between, and the gestures that all have one draw as many
  strokes as there are gestures. The condition is on the flag \<^verbatim>\<open>isSpaceHeld\<close>, not on the
  keys: the flag stays set when the key is released while scribble mode is off. While
  scribble mode is off no pointer event paints or begins a path; a pointer-down or a
  pointer-move changes nothing, and a pointer-up or a pointer-out changes nothing unless a
  stroke is still in progress, which it then stops.
\<close>

theorem one_stroke_per_drag_gesture:
  assumes "isScribbleMode s" "\<not> isDrawing s" "\<not> isSpaceHeld s" "\<not> isMouseDown s"
    "ctx_of s \<noteq> None"
  shows "(\<exists>s'. run (concat (map gesture_events gs)) s = Inr s'
       \<and> strokes_drawn (ctx_calls s') =
           strokes_drawn (ctx_calls s) + length (filter (\<lambda>g. snd (snd g) \<noteq> []) gs)
       \<and> ((\<forall>g\<in>set gs. snd (snd g) \<noteq> []) \<longrightarrow>
             strokes_drawn (ctx_calls s') = strokes_drawn (ctx_calls s) + length gs)
       \<and> paths_begun (ctx_calls s') = paths_begun (ctx_calls s) + length gs
       \<and> isScribbleMode s' \<and> \<not> isDrawing s' \<and> \<not> isSpaceHeld s' \<and> \<not> isMouseDown s')
     \<and> (\<forall>t ev. \<not> isScribbleMode t \<longrightarrow>
           step (Pointer ev) t =
             Inr (if isDrawing t \<and> (ev = MouseUp \<or> ev = MouseOut) then stopDrawing t else t)
         \<and> strokes_drawn (ctx_calls (stopDrawing t)) = strokes_drawn (ctx_calls t)
         \<and> paths_begun (ctx_calls (stopDrawing t)) = paths_begun (ctx_calls t))"
proof -
  from run_gestures [OF assms, of gs]
  obtain s' where s': "run (concat (map gesture_events gs)) s = Inr s'"
    "isScribbleMode s'" "\<not> isDrawing s'" "\<not> isSpaceHeld s'" "\<not> isMouseDown s'"
    "strokes_drawn (ctx_calls s') =
         strokes_drawn (ctx_calls s) + length (filter (\<lambda>g. snd (snd g) \<noteq> []) gs)"
    "paths_begun (ctx_calls s') = paths_begun (ctx_calls s) + length gs"
    by blast
  have "(\<forall>g\<in>set gs. snd (snd g) \<noteq> []) \<longrightarrow> filter (\<lambda>g. snd (snd g) \<noteq> []) gs = gs"
    by (simp add: filter_id_conv)
  with s' have all: "(\<forall>g\<in>set gs. snd (snd g) \<noteq> []) \<longrightarrow>
             strokes_drawn (ctx_calls s') = strokes_drawn (ctx_calls s) + length gs"
    by simp
  have off: "\<forall>t ev. \<not> isScribbleMode t \<longrightarrow>
           step (Pointer ev) t =
             Inr (if isDrawing t \<and> (ev = MouseUp \<or> ev = MouseOut) then stopDrawing t else t)
         \<and> strokes_drawn (ctx_calls (stopDrawing t)) = strokes_drawn (ctx_calls t)
         \<and> paths_begun (ctx_calls (stopDrawing t)) = paths_begun (ctx_calls t)"
    using step_pointer_off stopDrawing_paints_nothing by blast
  from s' all off show ?thesis by blast
qed

theorem one_stroke_per_drag_gesture_witness:
  "(\<exists>s'. run (concat (map gesture_events
        [([ptr 1 1], ptr 10 10, [ptr 20 20, ptr 30 30]), ([], ptr 50 50, [ptr 60 40])]))
        demo_scribble = Inr s'
     \<and> strokes_drawn (ctx_calls s') = 2 \<and> paths_begun (ctx_calls s') = 2 \<and> \<not> isDrawing s')
   \<and> step (Pointer MouseUp) (demo_scribble\<lparr>isScribbleMode := False\<rparr>)
       = Inr (demo_scribble\<lparr>isScribbleMode := False\<rparr>)
   \<and> step (Pointer MouseOut) (mid_stroke\<lparr>isScribbleMode := False\<rparr>)
       = Inr (stopDrawing (mid_stroke\<lparr>isScribbleMode := False\<rparr>))"
proof -
  have idle: "isScribbleMode demo_scribble" "\<not> isDrawing demo_scribble"
    "\<not> isSpaceHeld demo_scribble" "\<not> isMouseDown demo_scribble" "ctx_of demo_scribble \<noteq> None"
    by (simp_all add: demo_scribble_def ctx_of_def)
  have c0: "strokes_drawn (ctx_calls demo_scribble) = 0" "paths_begun (ctx_calls demo_scribble) = 0"
    by (simp_all add: demo_scribble_def ctx_calls_def ctx_of_def strokes_drawn_def paths_begun_def)
  have off: "\<not> isScribbleMode (demo_scribble\<lparr>isScribbleMode := False\<rparr>)"
    "\<not> isDrawing (demo_scribble\<lparr>isScribbleMode := False\<rparr>)"
    "\<not> isScribbleMode (mid_stroke\<lparr>isScribbleMode := False\<rparr>)"
    "isDrawing (mid_stroke\<lparr>isScribbleMode := False\<rparr>)"
    by (simp_all add: demo_scribble_def mid_stroke_def)
  from one_stroke_per_drag_gesture [OF idle,
        of "[([ptr 1 1], ptr 10 10, [ptr 20 20, ptr 30 30]), ([], ptr 50 50, [ptr 60 40])]"]
  have run: "\<exists>s'. run (concat (map gesture_events
        [([ptr 1 1], ptr 10 10, [ptr 20 20, ptr 30 30]), ([], ptr 50 50, [ptr 60 40])]))
        demo_scribble = Inr s'
     \<and> strokes_drawn (ctx_calls s') = 2 \<and> paths_begun (ctx_calls s') = 2 \<and> \<not> isDrawing s'"
    and offp: "\<And>t ev. \<not> isScribbleMode t \<Longrightarrow>
           step (Pointer ev) t =
             Inr (if isDrawing t \<and> (ev = MouseUp \<or> ev = MouseOut) then stopDrawing t else t)"
    using c0 by auto
  from offp [OF off(1), of MouseUp] off(2)
  have a: "step (Pointer MouseUp) (demo_scribble\<lparr>isScribbleMode := False\<rparr>)
       = Inr (demo_scribble\<lparr>isScribbleMode := False\<rparr>)"
    by (simp add: stopDrawing_idle)
  from offp [OF off(3), of MouseOut] off(4)
  have b: "step (Pointer MouseOut) (mid_stroke\<lparr>isScribbleMode := False\<rparr>)
       = Inr (stopDrawing (mid_stroke\<lparr>isScribbleMode := False\<rparr>))"
    by simp
  from run a b show ?thesis by blast
qed

text \<open>
  C3 as stated fails. A pointer-down followed by a pointer-up with no pointer-move between
  them begins and closes a path and paints nothing. With scribble mode off a pointer event
  can change the drawing state: after Escape in the middle of a stroke, a pointer-up stops
  the stroke. And with scribble mode on and no key down one down-up pair can draw two
  strokes: the space bar is pressed, Escape leaves the mode, the release of the space bar is
  ignored, the chord brings the mode back, and \<^verbatim>\<open>isSpaceHeld\<close> is still set, so the
  pointer-moves before the pointer-down draw a stroke of their own.
\<close>

theorem click_without_move_paints_nothing:
  "(\<exists>s'. run (gesture_events ([], ptr 10 10, [])) demo_scribble = Inr s'
     \<and> ctx_calls s' = [Scale 1 1, DrawImage 300 150 [], BeginPath, MoveTo 10 10, ClosePath]
     \<and> strokes_drawn (ctx_calls s') = 0)
   \<and> (\<exists>t t'. run [Pointer (MouseDown (fst (ptr 10 10)) (snd (ptr 10 10))),
                   Pointer (MouseMove (fst (ptr 20 20)) (snd (ptr 20 20))),
                   KeyDown (key ''Escape'')] demo_scribble = Inr t
        \<and> \<not> isScribbleMode t \<and> isDrawing t
        \<and> step (Pointer MouseUp) t = Inr t' \<and> \<not> isDrawing t')
   \<and> (\<exists>s'. run ([KeyDown (key ''Space''), KeyDown (key ''Escape''), KeyUp (key ''Space''),
                   KeyDown (key ''Tab''), KeyDown (key ''KeyS''), KeyUp (key ''Tab'')]
                  @ gesture_events ([ptr 1 1, ptr 2 2], ptr 10 10, [ptr 20 20]))
               demo_scribble = Inr s'
        \<and> isScribbleMode s'
        \<and> strokes_drawn (ctx_calls s') = 2 \<and> paths_begun (ctx_calls s') = 2)"
  by (simp add: gesture_events_def ptr_def key_def demo_scribble_def step_def canvas_handler_def
      startDrawing_def draw_def stopDrawing_def after_render_def save_effect_def with_ctx_def
      sc_handleKeyDown_def sc_handleKeyUp_def tool_handleKeyDown_def tool_handleKeyUp_def
      Let_def ctx_calls_def ctx_of_def strokes_drawn_def paths_begun_def)

subsection \<open>Leaving scribble mode\<close>

text \<open>
  C4, as the code has it. While scribble mode is on, the toggle chord (S with Tab held) or
  Escape turns the mode off and changes nothing else but the Tab flag of the key-binding
  effect: the key handler does not stop a stroke in progress, and the drawing flag, the
  pointer-held flag and the compositing mode keep their values. What stops the stroke and
  resets the state to idle (drawing flag false, pointer-held flag false, compositing mode
  \<^verbatim>\<open>source-over\<close>) is \<^verbatim>\<open>stopDrawing\<close>, which does not test the mode: the next pointer-up or
  pointer-out on the canvas does it, also after the mode has gone off. With the mode off a
  pointer-down, a pointer-move and the release of the space bar or of E change nothing.
  With the mode on the release of the space bar or of E stops the stroke as well.
\<close>

theorem mode_off_leaves_stroke_open:
  assumes "isScribbleMode s"
    and "(sc_isTabPressed s \<and> ev_code e = ''KeyS'') \<or> ev_code e = ''Escape''"
  shows "step (KeyDown e) s = Inr (s\<lparr>isScribbleMode := False, sc_isTabPressed := False\<rparr>)
     \<and> (\<forall>ev ctx. isDrawing s \<and> ctx_of s = Some ctx \<and> (ev = MouseUp \<or> ev = MouseOut) \<longrightarrow>
          (\<exists>s'. step (Pointer ev) (s\<lparr>isScribbleMode := False, sc_isTabPressed := False\<rparr>)
                   = Inr s'
             \<and> \<not> isScribbleMode s' \<and> \<not> isDrawing s' \<and> \<not> isMouseDown s'
             \<and> ctx_of s' = Some (ctx\<lparr>calls := calls ctx @ [ClosePath],
                                       globalCompositeOperation := ''source-over''\<rparr>)))
     \<and> (\<forall>m r. step (Pointer (MouseDown m r))
                  (s\<lparr>isScribbleMode := False, sc_isTabPressed := False\<rparr>)
                = Inr (s\<lparr>isScribbleMode := False, sc_isTabPressed := False\<rparr>)
             \<and> step (Pointer (MouseMove m r))
                  (s\<lparr>isScribbleMode := False, sc_isTabPressed := False\<rparr>)
                = Inr (s\<lparr>isScribbleMode := False, sc_isTabPressed := False\<rparr>))
     \<and> (\<forall>k. ev_code k = ''Space'' \<or> ev_code k = ''KeyE'' \<longrightarrow>
           step (KeyUp k) (s\<lparr>isScribbleMode := False, sc_isTabPressed := False\<rparr>)
             = Inr (s\<lparr>isScribbleMode := False, sc_isTabPressed := False\<rparr>))
     \<and> (\<forall>a ctx. isDrawing s \<and> ctx_of s = Some ctx
          \<and> (a = Pointer MouseUp \<or> a = Pointer MouseOut
             \<or> a = KeyUp (key ''Space'') \<or> a = KeyUp (key ''KeyE'')) \<longrightarrow>
          (\<exists>s'. step a s = Inr s' \<and> \<not> isDrawing s' \<and> \<not> isMouseDown s'
             \<and> ctx_of s' = Some (ctx\<lparr>calls := calls ctx @ [ClosePath],
                                       globalCompositeOperation := ''source-over''\<rparr>)))"
proof -
  have off: "step (KeyDown e) s = Inr (s\<lparr>isScribbleMode := False, sc_isTabPressed := False\<rparr>)"
    using assms
    by (auto simp: step_def sc_handleKeyDown_def tool_handleKeyDown_def after_render_def Let_def)
  let ?off = "s\<lparr>isScribbleMode := False, sc_isTabPressed := False\<rparr>"
  have late: "\<forall>ev ctx. isDrawing s \<and> ctx_of s = Some ctx \<and> (ev = MouseUp \<or> ev = MouseOut) \<longrightarrow>
          (\<exists>s'. step (Pointer ev) ?off = Inr s'
             \<and> \<not> isScribbleMode s' \<and> \<not> isDrawing s' \<and> \<not> isMouseDown s'
             \<and> ctx_of s' = Some (ctx\<lparr>calls := calls ctx @ [ClosePath],
                                       globalCompositeOperation := ''source-over''\<rparr>))"
  proof (intro allI impI)
    fix ev ctx
    assume h: "isDrawing s \<and> ctx_of s = Some ctx \<and> (ev = MouseUp \<or> ev = MouseOut)"
    then obtain c where c: "canvasRef s = Some c" "ctx2d c = Some ctx"
      using ctx_of_Some by blast
    from h have "step (Pointer ev) ?off = Inr (stopDrawing ?off)"
      using step_pointer_stop by blast
    moreover have "\<not> isScribbleMode (stopDrawing ?off)" "\<not> isDrawing (stopDrawing ?off)"
      "\<not> isMouseDown (stopDrawing ?off)"
      "ctx_of (stopDrawing ?off) = Some (ctx\<lparr>calls := calls ctx @ [ClosePath],
                                       globalCompositeOperation := ''source-over''\<rparr>)"
      using h c by (simp_all add: stopDrawing_def with_ctx_def ctx_of_def)
    ultimately show "\<exists>s'. step (Pointer ev) ?off = Inr s'
             \<and> \<not> isScribbleMode s' \<and> \<not> isDrawing s' \<and> \<not> isMouseDown s'
             \<and> ctx_of s' = Some (ctx\<lparr>calls := calls ctx @ [ClosePath],
                                       globalCompositeOperation := ''source-over''\<rparr>)"
      by blast
  qed
  have ptr: "\<forall>m r. step (Pointer (MouseDown m r)) ?off = Inr ?off
             \<and> step (Pointer (MouseMove m r)) ?off = Inr ?off"
    by (simp add: step_pointer_off)
  have keys: "\<forall>k. ev_code k = ''Space'' \<or> ev_code k = ''KeyE'' \<longrightarrow>
           step (KeyUp k) ?off = Inr ?off"
  proof (intro allI impI)
    fix k :: key_event
    assume c: "ev_code k = ''Space'' \<or> ev_code k = ''KeyE''"
    then have nt: "ev_code k \<noteq> ''Tab''" by auto
    have "tool_handleKeyUp k ?off = ?off"
      by (simp add: tool_handleKeyUp_def)
    moreover have "sc_handleKeyUp k ?off = ?off"
      using nt by (simp add: sc_handleKeyUp_def)
    ultimately show "step (KeyUp k) ?off = Inr ?off"
      by (simp add: step_def after_render_def)
  qed
  have stop: "\<forall>a ctx. isDrawing s \<and> ctx_of s = Some ctx
          \<and> (a = Pointer MouseUp \<or> a = Pointer MouseOut
             \<or> a = KeyUp (key ''Space'') \<or> a = KeyUp (key ''KeyE'')) \<longrightarrow>
          (\<exists>s'. step a s = Inr s' \<and> \<not> isDrawing s' \<and> \<not> isMouseDown s'
             \<and> ctx_of s' = Some (ctx\<lparr>calls := calls ctx @ [ClosePath],
                                       globalCompositeOperation := ''source-over''\<rparr>))"
  proof (intro allI impI)
    fix a ctx
    assume h: "isDrawing s \<and> ctx_of s = Some ctx
          \<and> (a = Pointer MouseUp \<or> a = Pointer MouseOut
             \<or> a = KeyUp (key ''Space'') \<or> a = KeyUp (key ''KeyE''))"
    then obtain c where c: "canvasRef s = Some c" "ctx2d c = Some ctx"
      using ctx_of_Some by blast
    let ?r = "s\<lparr>isEraser := backgroundState s, isSpaceHeld := False\<rparr>"
    have st: "\<not> isDrawing (stopDrawing s)" "\<not> isMouseDown (stopDrawing s)"
      "ctx_of (stopDrawing s) = Some (ctx\<lparr>calls := calls ctx @ [ClosePath],
                                       globalCompositeOperation := ''source-over''\<rparr>)"
      "\<not> isDrawing (stopDrawing ?r)" "\<not> isMouseDown (stopDrawing ?r)"
      "ctx_of (stopDrawing ?r) = Some (ctx\<lparr>calls := calls ctx @ [ClosePath],
                                       globalCompositeOperation := ''source-over''\<rparr>)"
      using h c by (simp_all add: stopDrawing_def with_ctx_def ctx_of_def)
    have kc: "ev_code (key ''Space'') = ''Space'' \<or> ev_code (key ''Space'') = ''KeyE''"
      "ev_code (key ''KeyE'') = ''Space'' \<or> ev_code (key ''KeyE'') = ''KeyE''"
      by (simp_all add: key_def)
    from h have "a = Pointer MouseUp \<or> a = Pointer MouseOut
             \<or> a = KeyUp (key ''Space'') \<or> a = KeyUp (key ''KeyE'')" by blast
    then consider "step a s = Inr (stopDrawing s)" | "step a s = Inr (stopDrawing ?r)"
      using step_pointer_stop [of MouseUp s] step_pointer_stop [of MouseOut s]
        step_keyup_released [OF assms(1) kc(1)] step_keyup_released [OF assms(1) kc(2)]
      by blast
    then show "\<exists>s'. step a s = Inr s' \<and> \<not> isDrawing s' \<and> \<not> isMouseDown s'
             \<and> ctx_of s' = Some (ctx\<lparr>calls := calls ctx @ [ClosePath],
                                       globalCompositeOperation := ''source-over''\<rparr>)"
    proof cases
      case 1
      with st(1-3) show ?thesis by blast
    next
      case 2
      with st(4-6) show ?thesis by blast
    qed
  qed
  show ?thesis
    by (rule conjI [OF off conjI [OF late conjI [OF ptr conjI [OF keys stop]]]])
qed

theorem mode_off_leaves_stroke_open_witness:
  "step (KeyDown (key ''Escape'')) mid_stroke =
     Inr (mid_stroke\<lparr>isScribbleMode := False, sc_isTabPressed := False\<rparr>)
   \<and> (\<exists>s'. step (Pointer MouseOut)
              (mid_stroke\<lparr>isScribbleMode := False, sc_isTabPressed := False\<rparr>) = Inr s'
        \<and> \<not> isDrawing s' \<and> \<not> isMouseDown s'
        \<and> map_option globalCompositeOperation (ctx_of s') = Some ''source-over'')
   \<and> (\<exists>s'. step (Pointer MouseUp) mid_stroke = Inr s' \<and> \<not> isDrawing s' \<and> \<not> isMouseDown s'
        \<and> map_option globalCompositeOperation (ctx_of s') = Some ''source-over'')"
proof -
  have h: "isScribbleMode mid_stroke"
    "(sc_isTabPressed mid_stroke \<and> ev_code (key ''Escape'') = ''KeyS'')
       \<or> ev_code (key ''Escape'') = ''Escape''"
    "isDrawing mid_stroke"
    by (simp_all add: mid_stroke_def key_def)
  obtain ctx where ctx: "ctx_of mid_stroke = Some ctx"
    by (simp add: mid_stroke_def ctx_of_def)
  note t = mode_off_leaves_stroke_open [OF h(1,2)]
  let ?off = "mid_stroke\<lparr>isScribbleMode := False, sc_isTabPressed := False\<rparr>"
  let ?ctx' = "ctx\<lparr>calls := calls ctx @ [ClosePath], globalCompositeOperation := ''source-over''\<rparr>"
  have a: "step (KeyDown (key ''Escape'')) mid_stroke = Inr ?off"
    by (rule t [THEN conjunct1])
  from t [THEN conjunct2, THEN conjunct1] h(3) ctx
  obtain s1 where s1: "step (Pointer MouseOut) ?off = Inr s1" "\<not> isDrawing s1"
    "\<not> isMouseDown s1" "ctx_of s1 = Some ?ctx'"
    by blast
  have b: "\<exists>s'. step (Pointer MouseOut) ?off = Inr s'
        \<and> \<not> isDrawing s' \<and> \<not> isMouseDown s'
        \<and> map_option globalCompositeOperation (ctx_of s') = Some ''source-over''"
    using s1 by (intro exI [of _ s1]) simp
  from t [THEN conjunct2, THEN conjunct2, THEN conjunct2, THEN conjunct2] h(3) ctx
  obtain s2 where s2: "step (Pointer MouseUp) mid_stroke = Inr s2" "\<not> isDrawing s2"
    "\<not> isMouseDown s2" "ctx_of s2 = Some ?ctx'"
    by blast
  have c: "\<exists>s'. step (Pointer MouseUp) mid_stroke = Inr s'
        \<and> \<not> isDrawing s' \<and> \<not> isMouseDown s'
        \<and> map_option globalCompositeOperation (ctx_of s') = Some ''source-over''"
    using s2 by (intro exI [of _ s2]) simp
  from a b c show ?thesis by blast
qed

text \<open>
  C4 as stated fails: the state that Escape, or the chord, leaves in the middle of an eraser
  stroke has the mode off and the stroke not stopped, with the drawing flag and the
  pointer-held flag set and the compositing mode at \<^verbatim>\<open>destination-out\<close>.
\<close>

theorem escape_mid_stroke_keeps_drawing:
  "(\<exists>s'. run [ClickEraser,
              Pointer (MouseDown (fst (ptr 10 10)) (snd (ptr 10 10))),
              Pointer (MouseMove (fst (ptr 20 20)) (snd (ptr 20 20))),
              KeyDown (key ''Escape'')] demo_scribble = Inr s'
      \<and> \<not> isScribbleMode s' \<and> isDrawing s' \<and> isMouseDown s'
      \<and> map_option globalCompositeOperation (ctx_of s') = Some ''destination-out'')
   \<and> (\<exists>s'. run [ClickEraser,
              Pointer (MouseDown (fst (ptr 10 10)) (snd (ptr 10 10))),
              Pointer (MouseMove (fst (ptr 20 20)) (snd (ptr 20 20))),
              KeyDown (key ''Tab''), KeyDown (key ''KeyS'')] demo_scribble = Inr s'
      \<and> \<not> isScribbleMode s' \<and> isDrawing s' \<and> isMouseDown s'
      \<and> map_option globalCompositeOperation (ctx_of s') = Some ''destination-out'')"
  by (simp add: ptr_def key_def demo_scribble_def step_def canvas_handler_def
      startDrawing_def draw_def after_render_def save_effect_def with_ctx_def Let_def
      sc_handleKeyDown_def tool_handleKeyDown_def ctx_of_def)

subsection \<open>Trigger keys\<close>

text \<open>
  C5. While scribble mode is on, whatever the resting tool: pressing the space bar makes
  the pencil the active tool and pressing E makes the eraser the active tool, neither
  changes the resting tool; releasing either key makes the resting tool the active tool
  again and leaves the resting tool as it is, so a press followed by its release ends with
  the resting tool active. The resting tool is the one chosen last with the pencil and
  eraser buttons.
\<close>

theorem key_hold_overrides_tool:
  assumes "isScribbleMode s"
  shows "(ev_code e = ''Space'' \<longrightarrow>
            (\<exists>s'. step (KeyDown e) s = Inr s' \<and> \<not> isEraser s' \<and> isSpaceHeld s'
               \<and> backgroundState s' = backgroundState s))
       \<and> (ev_code e = ''KeyE'' \<longrightarrow>
            (\<exists>s'. step (KeyDown e) s = Inr s' \<and> isEraser s' \<and> isSpaceHeld s'
               \<and> backgroundState s' = backgroundState s))
       \<and> (ev_code e = ''Space'' \<or> ev_code e = ''KeyE'' \<longrightarrow>
            (\<exists>s'. step (KeyUp e) s = Inr s' \<and> isEraser s' = backgroundState s
               \<and> \<not> isSpaceHeld s' \<and> backgroundState s' = backgroundState s))
       \<and> ((ev_code e = ''Space'' \<or> ev_code e = ''KeyE'') \<and> ev_key e \<noteq> ''Escape'' \<longrightarrow>
            (\<exists>s'. run [KeyDown e, KeyUp e] s = Inr s' \<and> isEraser s' = backgroundState s
               \<and> backgroundState s' = backgroundState s))
       \<and> (\<exists>s'. step ClickPencil s = Inr s' \<and> \<not> isEraser s' \<and> \<not> backgroundState s')
       \<and> (\<exists>s'. step ClickEraser s = Inr s' \<and> isEraser s' \<and> backgroundState s')"
proof -
  have down_space: "ev_code e = ''Space'' \<longrightarrow>
            (\<exists>s'. step (KeyDown e) s = Inr s' \<and> \<not> isEraser s' \<and> isSpaceHeld s'
               \<and> backgroundState s' = backgroundState s)"
  proof
    assume c: "ev_code e = ''Space''"
    then have "ev_code e \<noteq> ''KeyE''" by simp
    with step_keydown_tool [OF assms, of e] c show "\<exists>s'. step (KeyDown e) s = Inr s'
       \<and> \<not> isEraser s' \<and> isSpaceHeld s' \<and> backgroundState s' = backgroundState s"
      by auto
  qed
  have down_e: "ev_code e = ''KeyE'' \<longrightarrow>
            (\<exists>s'. step (KeyDown e) s = Inr s' \<and> isEraser s' \<and> isSpaceHeld s'
               \<and> backgroundState s' = backgroundState s)"
    using step_keydown_tool [OF assms, of e] by auto
  have up: "ev_code e = ''Space'' \<or> ev_code e = ''KeyE'' \<longrightarrow>
            (\<exists>s'. step (KeyUp e) s = Inr s' \<and> isEraser s' = backgroundState s
               \<and> \<not> isSpaceHeld s' \<and> backgroundState s' = backgroundState s)"
    using step_keyup_released [OF assms, of e] by (simp add: stopDrawing_keeps)
  have both: "(ev_code e = ''Space'' \<or> ev_code e = ''KeyE'') \<and> ev_key e \<noteq> ''Escape'' \<longrightarrow>
            (\<exists>s'. run [KeyDown e, KeyUp e] s = Inr s' \<and> isEraser s' = backgroundState s
               \<and> backgroundState s' = backgroundState s)"
  proof
    assume h: "(ev_code e = ''Space'' \<or> ev_code e = ''KeyE'') \<and> ev_key e \<noteq> ''Escape''"
    then have c: "ev_code e = ''Space'' \<or> ev_code e = ''KeyE''" by blast
    from step_keydown_tool [OF assms c] h
    obtain s1 where s1: "step (KeyDown e) s = Inr s1" "backgroundState s1 = backgroundState s"
      "isScribbleMode s1" by blast
    from step_keyup_released [OF s1(3) c] s1
    show "\<exists>s'. run [KeyDown e, KeyUp e] s = Inr s' \<and> isEraser s' = backgroundState s
               \<and> backgroundState s' = backgroundState s"
      by (simp add: stopDrawing_keeps)
  qed
  have buttons: "\<exists>s'. step ClickPencil s = Inr s' \<and> \<not> isEraser s' \<and> \<not> backgroundState s'"
    "\<exists>s'. step ClickEraser s = Inr s' \<and> isEraser s' \<and> backgroundState s'"
    using assms by (simp_all add: step_def after_render_def)
  from down_space down_e up both buttons show ?thesis by blast
qed

theorem key_hold_overrides_tool_witness:
  "(\<exists>s'. step (KeyDown (key ''Space'')) mid_stroke = Inr s' \<and> \<not> isEraser s'
       \<and> backgroundState s' = backgroundState mid_stroke)
   \<and> (\<exists>s'. step (KeyDown (key ''KeyE'')) demo_scribble = Inr s' \<and> isEraser s'
       \<and> backgroundState s' = backgroundState demo_scribble)
   \<and> (\<exists>s'. run [KeyDown (key ''KeyE''), KeyUp (key ''KeyE'')] demo_scribble = Inr s'
       \<and> \<not> isEraser s')
   \<and> (\<exists>s'. run [KeyDown (key ''Space''), KeyUp (key ''Space'')] mid_stroke = Inr s'
       \<and> isEraser s')"
proof -
  have m: "isScribbleMode mid_stroke" "backgroundState mid_stroke"
    by (simp_all add: mid_stroke_def)
  have d: "isScribbleMode demo_scribble" "\<not> backgroundState demo_scribble"
    by (simp_all add: demo_scribble_def)
  have k: "ev_code (key ''Space'') = ''Space''" "ev_code (key ''KeyE'') = ''KeyE''"
    "ev_key (key ''Space'') \<noteq> ''Escape''" "ev_key (key ''KeyE'') \<noteq> ''Escape''"
    by (simp_all add: key_def)
  have a: "\<exists>s'. step (KeyDown (key ''Space'')) mid_stroke = Inr s' \<and> \<not> isEraser s'
       \<and> backgroundState s' = backgroundState mid_stroke"
    using key_hold_overrides_tool [OF m(1), of "key ''Space''"] k(1) by blast
  have b: "\<exists>s'. run [KeyDown (key ''Space''), KeyUp (key ''Space'')] mid_stroke = Inr s'
       \<and> isEraser s'"
    using key_hold_overrides_tool [OF m(1), of "key ''Space''"] k(1,3) m(2) by blast
  have c: "\<exists>s'. step (KeyDown (key ''KeyE'')) demo_scribble = Inr s' \<and> isEraser s'
       \<and> backgroundState s' = backgroundState demo_scribble"
    using key_hold_overrides_tool [OF d(1), of "key ''KeyE''"] k(2) by blast
  have e: "\<exists>s'. run [KeyDown (key ''KeyE''), KeyUp (key ''KeyE'')] demo_scribble = Inr s'
       \<and> \<not> isEraser s'"
    using key_hold_overrides_tool [OF d(1), of "key ''KeyE''"] k(2,4) d(2) by blast
  from a b c e show ?thesis by blast
qed

subsection \<open>Snapshots\<close>

text \<open>
  No event that is followed by a render writes the snapshot. In every state the component
  reaches, a set \<^verbatim>\<open>didDrawInStroke\<close> comes with a set \<^verbatim>\<open>isDrawing\<close>, so the save effect
  never finds its condition true.
\<close>

lemma canvas_handler_keeps_snapshot:
  assumes "didDrawInStroke s \<longrightarrow> isDrawing s"
  shows "lastDrawnState (canvas_handler ev s) = lastDrawnState s
       \<and> (didDrawInStroke (canvas_handler ev s) \<longrightarrow> isDrawing (canvas_handler ev s))"
proof (cases ev)
  case (MouseDown e r)
  with assms show ?thesis
    by (auto simp: canvas_handler_def startDrawing_def Let_def split: option.splits)
next
  case (MouseMove e r)
  with assms show ?thesis
    by (auto simp: canvas_handler_def draw_def startDrawing_def Let_def split: option.splits)
next
  case MouseUp
  with assms show ?thesis
    by (auto simp: canvas_handler_def stopDrawing_def split: option.splits)
next
  case MouseOut
  with assms show ?thesis
    by (auto simp: canvas_handler_def stopDrawing_def split: option.splits)
qed

lemma key_handlers_keep_snapshot:
  assumes "didDrawInStroke s \<longrightarrow> isDrawing s"
  shows "lastDrawnState (sc_handleKeyDown e (tool_handleKeyDown e s)) = lastDrawnState s"
    and "didDrawInStroke (sc_handleKeyDown e (tool_handleKeyDown e s)) \<longrightarrow>
         isDrawing (sc_handleKeyDown e (tool_handleKeyDown e s))"
    and "lastDrawnState (sc_handleKeyUp e (tool_handleKeyUp e s)) = lastDrawnState s"
    and "didDrawInStroke (sc_handleKeyUp e (tool_handleKeyUp e s)) \<longrightarrow>
         isDrawing (sc_handleKeyUp e (tool_handleKeyUp e s))"
  using assms
  by (auto simp: sc_handleKeyDown_def tool_handleKeyDown_def sc_handleKeyUp_def
      tool_handleKeyUp_def stopDrawing_def Let_def split: option.splits)

lemma handle_keeps_snapshot:
  assumes "didDrawInStroke s \<longrightarrow> isDrawing s"
  shows "\<exists>t. handle a s = Inr t \<and> lastDrawnState t = lastDrawnState s
           \<and> (didDrawInStroke t \<longrightarrow> isDrawing t)"
proof (cases a)
  case (Pointer ev)
  with canvas_handler_keeps_snapshot [OF assms(1), of ev] show ?thesis by simp
next
  case (KeyDown e)
  with key_handlers_keep_snapshot(1,2) [OF assms(1), of e] show ?thesis by simp
next
  case (KeyUp e)
  with key_handlers_keep_snapshot(3,4) [OF assms(1), of e] show ?thesis by simp
next
  case ClickPencil
  with assms(1) show ?thesis by simp
next
  case ClickEraser
  with assms(1) show ?thesis by simp
next
  case ClickClear
  with assms(1) show ?thesis by (auto simp: clearCanvas_def split: option.splits)
qed

lemma step_keeps_snapshot:
  assumes "didDrawInStroke s \<longrightarrow> isDrawing s"
  shows "\<exists>s'. step a s = Inr s' \<and> lastDrawnState s' = lastDrawnState s
           \<and> (didDrawInStroke s' \<longrightarrow> isDrawing s')"
proof -
  from handle_keeps_snapshot [OF assms]
  obtain t where t: "handle a s = Inr t" "lastDrawnState t = lastDrawnState s"
    "didDrawInStroke t \<longrightarrow> isDrawing t" by blast
  have "save_effect t = Inr t"
    using t(3) by (auto simp: save_effect_def)
  moreover have "save_effect (t\<lparr>sc_isTabPressed := False\<rparr>) = Inr (t\<lparr>sc_isTabPressed := False\<rparr>)"
    using t(3) by (auto simp: save_effect_def)
  ultimately show ?thesis
    using t by (auto simp: step_def after_render_def Let_def)
qed

lemma run_keeps_snapshot:
  assumes "didDrawInStroke s \<longrightarrow> isDrawing s"
  shows "\<exists>s'. run as s = Inr s' \<and> lastDrawnState s' = lastDrawnState s
           \<and> (didDrawInStroke s' \<longrightarrow> isDrawing s')"
  using assms
proof (induction as arbitrary: s)
  case Nil
  then show ?case by simp
next
  case (Cons a as)
  from step_keeps_snapshot [OF Cons.prems(1)]
  obtain s1 where s1: "step a s = Inr s1" "lastDrawnState s1 = lastDrawnState s"
    "didDrawInStroke s1 \<longrightarrow> isDrawing s1" by blast
  from Cons.IH [OF s1(3)] s1(1,2) show ?case by auto
qed

text \<open>
  A resize redraws the scratch copy of the bitmap onto the resized, rescaled surface and
  saves a snapshot of the result; without a scratch context it restores the saved snapshot.
\<close>

lemma updateCanvasSize_resizing:
  assumes "canvasRef s = Some c" "ctx2d c = Some ctx" "parentElement env = Some p"
    and "dpr = (if devicePixelRatio env = 0 then 1 else devicePixelRatio env)"
    and "h = Max {p_scrollHeight p, p_offsetHeight p, p_clientHeight p,
                  doc_scrollHeight env, doc_offsetHeight env, doc_clientHeight env}"
    and "\<not> (cv_width c = p_offsetWidth p * dpr \<and> cv_height c = h * dpr)"
  shows "updateCanvasSize env s =
    (let currentState = lastDrawnState s;
               temp = (if tempCtx_available env
                       then (if cv_width c = 0 \<or> cv_height c = 0
                             then Inl InvalidStateError
                             else Inr (Some (cv_width c, cv_height c, calls ctx)))
                       else Inr None)
           in case temp of
                Inl err \<Rightarrow> Inl err
              | Inr tempCanvas \<Rightarrow>
                  let resized = set_size (p_offsetWidth p * dpr) (h * dpr) c;
                      ctx = default_context\<lparr>calls := [Scale dpr dpr]\<rparr>
                  in (case tempCanvas of
                        Some img \<Rightarrow>
                          (case drawImage img ctx of
                             Inl err \<Rightarrow> Inl err
                           | Inr ctx' \<Rightarrow>
                               (case saveCanvasState (s\<lparr>canvasRef := Some (resized\<lparr>ctx2d := Some ctx'\<rparr>)\<rparr>) of
                                  Inl err \<Rightarrow> Inl err
                                | Inr s' \<Rightarrow>
                                    Inr (s'\<lparr>canvasRef := Some (resized
                                           \<lparr>ctx2d := Some (default_style (strokeColor s) ctx')\<rparr>)\<rparr>)))
                      | None \<Rightarrow>
                          (case currentState of
                             Some (w, h, cs) \<Rightarrow>
                               Inr (s\<lparr>canvasRef := Some (resized
                                      \<lparr>ctx2d := Some (default_style (strokeColor s)
                                          (ctx\<lparr>calls := calls ctx @ [PutImageData w h cs]\<rparr>))\<rparr>)\<rparr>)
                           | None \<Rightarrow>
                               Inr (s\<lparr>canvasRef := Some (resized
                                      \<lparr>ctx2d := Some (default_style (strokeColor s) ctx)\<rparr>)\<rparr>))))"
  unfolding updateCanvasSize_def assms(1) assms(2) assms(3) option.case
  unfolding Let_def assms(4) [symmetric] assms(5) [symmetric] if_not_P [OF assms(6)]
  by (rule refl)

lemma resize_redraws_scratch_copy:
  assumes "canvasRef s = Some c" "ctx2d c = Some ctx" "parentElement env = Some p"
    and "dpr = (if devicePixelRatio env = 0 then 1 else devicePixelRatio env)"
    and "h = Max {p_scrollHeight p, p_offsetHeight p, p_clientHeight p,
                  doc_scrollHeight env, doc_offsetHeight env, doc_clientHeight env}"
    and "\<not> (cv_width c = p_offsetWidth p * dpr \<and> cv_height c = h * dpr)"
    and "tempCtx_available env"
    and "cv_width c \<noteq> 0" "cv_height c \<noteq> 0"
    and "p_offsetWidth p * dpr \<noteq> 0" "h * dpr \<noteq> 0"
  shows "\<exists>s'. updateCanvasSize env s = Inr s'
     \<and> ctx_calls s' = [Scale dpr dpr, DrawImage (cv_width c) (cv_height c) (calls ctx)]
     \<and> lastDrawnState s' =
         Some (p_offsetWidth p * dpr, h * dpr,
               [Scale dpr dpr, DrawImage (cv_width c) (cv_height c) (calls ctx)])"
proof -
  have r: "set_size w' h' c = \<lparr>cv_width = w', cv_height = h', ctx2d = Some default_context\<rparr>"
    for w' h'
    using assms(2) by (simp add: set_size_def)
  show ?thesis
    unfolding updateCanvasSize_resizing [OF assms(1-6)]
    using assms(7-11)
    by (simp add: Let_def drawImage_def saveCanvasState_def getImageData_def r
        default_context_def default_style_def ctx_calls_def ctx_of_def)
qed

lemma resize_restores_snapshot:
  assumes "canvasRef s = Some c" "ctx2d c = Some ctx" "parentElement env = Some p"
    and "dpr = (if devicePixelRatio env = 0 then 1 else devicePixelRatio env)"
    and "h = Max {p_scrollHeight p, p_offsetHeight p, p_clientHeight p,
                  doc_scrollHeight env, doc_offsetHeight env, doc_clientHeight env}"
    and "\<not> (cv_width c = p_offsetWidth p * dpr \<and> cv_height c = h * dpr)"
    and "\<not> tempCtx_available env"
    and "lastDrawnState s = Some (w0, h0, cs)"
  shows "\<exists>s'. updateCanvasSize env s = Inr s'
     \<and> ctx_calls s' = [Scale dpr dpr, PutImageData w0 h0 cs]
     \<and> lastDrawnState s' = Some (w0, h0, cs)"
proof -
  have r: "set_size w' h' c = \<lparr>cv_width = w', cv_height = h', ctx2d = Some default_context\<rparr>"
    for w' h'
    using assms(2) by (simp add: set_size_def)
  show ?thesis
    unfolding updateCanvasSize_resizing [OF assms(1-6)]
    using assms(7,8)
    by (simp add: Let_def r default_context_def default_style_def ctx_calls_def ctx_of_def)
qed

text \<open>
  C8 at the failing input. One stroke with two pointer-moves is painted and completed, and
  no snapshot is saved: \<^verbatim>\<open>stopDrawing\<close> clears \<^verbatim>\<open>didDrawInStroke\<close> in the handler, before the
  effect that saves the snapshot after a stroke reads it.
\<close>

theorem no_snapshot_after_stroke:
  "\<exists>s'. run (gesture_events ([], ptr 10 10, [ptr 20 20, ptr 30 30])) demo_scribble = Inr s'
     \<and> ctx_calls s' =
         [Scale 1 1, DrawImage 300 150 [], BeginPath, MoveTo 10 10,
          LineTo 20 20, Stroke ''source-over'' 2 ''#5A5A5A'',
          LineTo 30 30, Stroke ''source-over'' 2 ''#5A5A5A'', ClosePath]
     \<and> strokes_drawn (ctx_calls s') = 1
     \<and> \<not> isDrawing s'
     \<and> lastDrawnState s' = Some (800, 600, [Scale 1 1, DrawImage 300 150 []])
     \<and> lastDrawnState s' = lastDrawnState demo_scribble"
  by (simp add: gesture_events_def ptr_def demo_scribble_def step_def canvas_handler_def
      startDrawing_def draw_def stopDrawing_def after_render_def save_effect_def with_ctx_def
      Let_def ctx_calls_def ctx_of_def strokes_drawn_def)

end
